theory Spec2Isabelle
  imports Main
begin

section \<open>Python values, dictionaries and exceptions\<close>

text \<open>
  The handler of \<^verbatim>\<open>live_logs_handler/handler.py\<close> passes log entries around as Python
  dictionaries from field names to scalars. A Python \<^verbatim>\<open>str\<close> is modelled by the list of its
  code points, for text whose code points are below 256; a dictionary is an association list
  in insertion order, as Python dictionaries are.
\<close>

datatype pyval = PStr string | PInt int | PBool bool | PNone

type_synonym pydict = "(string \<times> pyval) list"

text \<open>\<^verbatim>\<open>d[k] = v\<close>: an existing key keeps its position, a new key goes last.\<close>

fun setitem :: "pydict \<Rightarrow> string \<Rightarrow> pyval \<Rightarrow> pydict" where
  "setitem [] k v = [(k, v)]"
| "setitem ((k', v') # d) k v = (if k' = k then (k, v) # d else (k', v') # setitem d k v)"

text \<open>\<^verbatim>\<open>d.get(k)\<close>, with \<open>None\<close> for a missing key.\<close>

definition getitem :: "pydict \<Rightarrow> string \<Rightarrow> pyval option" where
  "getitem d k = map_of d k"

text \<open>Truth value of a Python scalar, as \<^verbatim>\<open>if x:\<close> tests it.\<close>

fun truthy :: "pyval \<Rightarrow> bool" where
  "truthy (PStr s) = (s \<noteq> [])"
| "truthy (PInt i) = (i \<noteq> 0)"
| "truthy (PBool b) = b"
| "truthy PNone = False"

datatype exn = Full | Empty | OSError | ValueError | TypeError | AttributeError

section \<open>Strings: \<^verbatim>\<open>str.strip\<close> and \<^verbatim>\<open>str.rstrip\<close>\<close>

text \<open>
  Python's whitespace among the code points below 256: tab to carriage return, the four
  separators 28 to 31, the space, NEL (133) and the no-break space (160).
\<close>

definition py_isspace :: "char \<Rightarrow> bool" where
  "py_isspace c = (let n = (of_char c :: nat) in
     (9 \<le> n \<and> n \<le> 13) \<or> (28 \<le> n \<and> n \<le> 32) \<or> n = 133 \<or> n = 160)"

definition lstrip :: "string \<Rightarrow> string" where
  "lstrip s = dropWhile py_isspace s"

definition rstrip :: "string \<Rightarrow> string" where
  "rstrip s = rev (dropWhile py_isspace (rev s))"

definition strip :: "string \<Rightarrow> string" where
  "strip s = rstrip (lstrip s)"

section \<open>The bounded queue (\<^verbatim>\<open>queue.Queue\<close>)\<close>

text \<open>
  The queue holds references to entries. \<open>unfinished_tasks\<close> is the counter that
  \<^verbatim>\<open>put\<close> increments, \<^verbatim>\<open>task_done\<close> decrements and \<^verbatim>\<open>join\<close> waits on.
  A \<open>maxsize\<close> of zero or less means no bound.
\<close>

type_synonym addr = nat

record queue =
  maxsize :: int
  items :: "addr list"
  unfinished_tasks :: nat

definition Queue :: "int \<Rightarrow> queue" where
  "Queue n = \<lparr>maxsize = n, items = [], unfinished_tasks = 0\<rparr>"

definition full :: "queue \<Rightarrow> bool" where
  "full q = (0 < maxsize q \<and> maxsize q \<le> int (length (items q)))"

definition empty_q :: "queue \<Rightarrow> bool" where
  "empty_q q = (items q = [])"

definition put_nowait :: "queue \<Rightarrow> addr \<Rightarrow> exn + queue" where
  "put_nowait q a =
     (if full q then Inl Full
      else Inr (q\<lparr>items := items q @ [a], unfinished_tasks := Suc (unfinished_tasks q)\<rparr>))"

text \<open>
  \<^verbatim>\<open>get(timeout=0.1)\<close>: on an empty queue the wait ends with \<open>Empty\<close>; an entry that
  arrives during the wait is a producer step taken before this one.
\<close>

definition get_timeout :: "queue \<Rightarrow> exn + (addr \<times> queue)" where
  "get_timeout q = (case items q of [] \<Rightarrow> Inl Empty | a # as \<Rightarrow> Inr (a, q\<lparr>items := as\<rparr>))"

definition task_done :: "queue \<Rightarrow> exn + queue" where
  "task_done q =
     (if unfinished_tasks q = 0 then Inl ValueError
      else Inr (q\<lparr>unfinished_tasks := unfinished_tasks q - 1\<rparr>))"

text \<open>
  The invariant of \<^verbatim>\<open>queue.Queue\<close> that \<^verbatim>\<open>join\<close> relies on: every entry still in the
  queue is counted in \<open>unfinished_tasks\<close>.
\<close>

definition queue_ok :: "queue \<Rightarrow> bool" where
  "queue_ok q \<longleftrightarrow> length (items q) \<le> unfinished_tasks q"

section \<open>The logger object and the process around it\<close>

text \<open>
  \<open>console\<close> names the two streams that were \<^verbatim>\<open>sys.stdout\<close> and \<^verbatim>\<open>sys.stderr\<close>
  when the logger was constructed; a \<open>device\<close> is what such a stream has received:
  the text already flushed and the text written but not yet flushed.
\<close>

datatype console = Stdout | Stderr

record device =
  flushed :: string
  pending :: string

text \<open>
  What \<^verbatim>\<open>sys.stdout\<close> or \<^verbatim>\<open>sys.stderr\<close> currently is: the original stream, or a
  \<^verbatim>\<open>PrintCapture(original, logger, stream_name)\<close> around it.
\<close>

datatype stream = Original console | PrintCapture console string

text \<open>The cell context \<^verbatim>\<open>self.current_cell\<close>.\<close>

record cell =
  cell_number :: int
  cell_id :: pyval
  start_time :: string

datatype handler = StreamHandler | StructuredLogHandler nat

text \<open>
  A writer thread running \<^verbatim>\<open>_log_writer\<close>: spawned and not yet at \<^verbatim>\<open>open\<close>; inside
  the loop, with the text its file object holds unflushed; returned; or ended by an
  exception.
\<close>

datatype wthread = Spawned | Looping string | Exited | Died exn

text \<open>
  The fields of \<^verbatim>\<open>ThreadSafeStructuredLogger\<close>. \<open>log_file\<close> is the path string the
  \<^verbatim>\<open>Path\<close> was built from; \<open>writer_thread\<close> is the index of the latest thread spawned.
\<close>

record logger =
  log_file :: string
  include_cell_info :: bool
  capture_print :: bool
  log_queue :: queue
  running :: bool
  writer_thread :: "nat option"
  current_cell :: "cell option"
  cell_count :: int
  original_stdout :: console
  original_stderr :: console
  log_handler :: "handler option"

text \<open>
  The process state the logger reads and writes: the store of dictionaries (\<open>heap\<close>, with
  \<open>next_addr\<close> the next free address), the wall clock as the sequence of readings
  \<^verbatim>\<open>datetime.utcnow().isoformat()\<close> returns (\<open>ticks\<close> counts the readings made), the two
  global streams, the two devices, the root logger's handlers, the threads spawned, the
  target files' contents and whether \<^verbatim>\<open>open(path, 'a')\<close> succeeds, and the environment.
\<close>

record globals =
  heap :: "addr \<Rightarrow> pydict"
  next_addr :: addr
  clock :: "nat \<Rightarrow> string"
  ticks :: nat
  sys_stdout :: stream
  sys_stderr :: stream
  dev_out :: device
  dev_err :: device
  root_handlers :: "handler list"
  handlers_made :: nat
  threads :: "wthread list"
  disk :: "string \<Rightarrow> string"
  can_open :: "string \<Rightarrow> bool"
  environ :: "string \<Rightarrow> string option"

text \<open>The calling thread: \<^verbatim>\<open>threading.get_ident()\<close> and \<^verbatim>\<open>current_thread().name\<close>.\<close>

record thread =
  ident :: int
  tname :: string

definition utcnow :: "globals \<Rightarrow> string \<times> globals" where
  "utcnow g = (clock g (ticks g), g\<lparr>ticks := Suc (ticks g)\<rparr>)"

text \<open>A dictionary display allocates a new object.\<close>

definition new_dict :: "pydict \<Rightarrow> globals \<Rightarrow> addr \<times> globals" where
  "new_dict d g = (next_addr g, g\<lparr>heap := (heap g)(next_addr g := d), next_addr := Suc (next_addr g)\<rparr>)"

definition console_write :: "console \<Rightarrow> string \<Rightarrow> globals \<Rightarrow> globals" where
  "console_write c text g =
     (case c of
        Stdout \<Rightarrow> g\<lparr>dev_out := (dev_out g)\<lparr>pending := pending (dev_out g) @ text\<rparr>\<rparr>
      | Stderr \<Rightarrow> g\<lparr>dev_err := (dev_err g)\<lparr>pending := pending (dev_err g) @ text\<rparr>\<rparr>)"

definition flush_device :: "device \<Rightarrow> device" where
  "flush_device d = \<lparr>flushed = flushed d @ pending d, pending = []\<rparr>"

definition console_flush :: "console \<Rightarrow> globals \<Rightarrow> globals" where
  "console_flush c g =
     (case c of
        Stdout \<Rightarrow> g\<lparr>dev_out := flush_device (dev_out g)\<rparr>
      | Stderr \<Rightarrow> g\<lparr>dev_err := flush_device (dev_err g)\<rparr>)"

definition console_dev :: "console \<Rightarrow> globals \<Rightarrow> device" where
  "console_dev c g = (case c of Stdout \<Rightarrow> dev_out g | Stderr \<Rightarrow> dev_err g)"

text \<open>All the text a device was given, flushed or not.\<close>

definition received :: "device \<Rightarrow> string" where
  "received d = flushed d @ pending d"

text \<open>
  \<open>log_effects g g'\<close>: \<open>g'\<close> differs from \<open>g\<close> at most in the store, the number of
  clock readings made and the two devices.
\<close>

definition log_effects :: "globals \<Rightarrow> globals \<Rightarrow> bool" where
  "log_effects g g' \<longleftrightarrow>
     clock g' = clock g \<and> sys_stdout g' = sys_stdout g \<and> sys_stderr g' = sys_stderr g \<and>
     root_handlers g' = root_handlers g \<and> handlers_made g' = handlers_made g \<and>
     threads g' = threads g \<and> disk g' = disk g \<and> can_open g' = can_open g \<and>
     environ g' = environ g"

text \<open>\<open>queue_only self self'\<close>: the logger \<open>self'\<close> differs from \<open>self\<close> at most in its queue.\<close>

definition queue_only :: "logger \<Rightarrow> logger \<Rightarrow> bool" where
  "queue_only self self' \<longleftrightarrow>
     log_file self' = log_file self \<and> include_cell_info self' = include_cell_info self \<and>
     capture_print self' = capture_print self \<and> running self' = running self \<and>
     writer_thread self' = writer_thread self \<and> current_cell self' = current_cell self \<and>
     cell_count self' = cell_count self \<and> original_stdout self' = original_stdout self \<and>
     original_stderr self' = original_stderr self \<and> log_handler self' = log_handler self \<and>
     maxsize (log_queue self') = maxsize (log_queue self)"

section \<open>\<^verbatim>\<open>_log\<close>: stamping an entry and queueing it\<close>

text \<open>
  \<^verbatim>\<open>_log(entry)\<close> is \<open>priv_log th a\<close>, with \<open>a\<close> the address of \<^verbatim>\<open>entry\<close> and \<open>th\<close>
  the calling thread. The assignments \<^verbatim>\<open>entry[...] = ...\<close> update the object at \<open>a\<close>
  in the store; the queue receives the same address. The \<^verbatim>\<open>try ... except: pass\<close>
  around \<^verbatim>\<open>put_nowait\<close> turns \<open>Full\<close> into a normal return.
\<close>

definition stamp :: "logger \<Rightarrow> string \<Rightarrow> thread \<Rightarrow> pydict \<Rightarrow> pydict" where
  "stamp self now th entry =
     (let e1 = setitem entry ''timestamp'' (PStr (now @ ''Z''));
          e2 = setitem e1 ''thread_id'' (PInt (ident th));
          e3 = setitem e2 ''thread_name'' (PStr (tname th))
      in case current_cell self of
           Some c \<Rightarrow>
             if include_cell_info self then
               (let e4 = setitem e3 ''cell_number'' (PInt (cell_number c))
                in if truthy (cell_id c) then setitem e4 ''cell_id'' (cell_id c) else e4)
             else e3
         | None \<Rightarrow> e3)"

definition priv_log :: "thread \<Rightarrow> addr \<Rightarrow> logger \<Rightarrow> globals \<Rightarrow> exn + (logger \<times> globals)" where
  "priv_log th a self g =
     (if \<not> running self then Inr (self, g)
      else
        let (now, g1) = utcnow g;
            g2 = g1\<lparr>heap := (heap g1)(a := stamp self now th (heap g1 a))\<rparr>
        in case put_nowait (log_queue self) a of
             Inl e \<Rightarrow> Inr (self, g2)
           | Inr q \<Rightarrow> Inr (self\<lparr>log_queue := q\<rparr>, g2))"

section \<open>Writing to a stream\<close>

definition nl :: string where
  "nl = [CHR 0x0A]"

text \<open>
  \<^verbatim>\<open>PrintCapture.write(text)\<close> for the capture object around the console \<open>orig\<close>:
  forward and flush, then log the text if something is left of it after \<^verbatim>\<open>strip()\<close>.
  The result is \<^verbatim>\<open>len(text)\<close>.
\<close>

definition PrintCapture_write ::
  "console \<Rightarrow> string \<Rightarrow> string \<Rightarrow> thread \<Rightarrow> logger \<Rightarrow> globals \<Rightarrow> exn + (nat \<times> logger \<times> globals)" where
  "PrintCapture_write orig name text th self g =
     (let g1 = console_flush orig (console_write orig text g) in
      if text \<noteq> [] \<and> strip text \<noteq> [] then
        (let (now, g2) = utcnow g1;
             (a, g3) = new_dict
               [(''severity_text'', PStr (if name = ''stderr'' then ''ERROR'' else ''INFO'')),
                (''body'', PStr (rstrip text)),
                (''source'', PStr ''print''),
                (''stream'', PStr name),
                (''timestamp'', PStr (now @ ''Z''))] g2
         in case priv_log th a self g3 of
              Inl e \<Rightarrow> Inl e
            | Inr (self', g4) \<Rightarrow> Inr (length text, self', g4))
      else Inr (length text, self, g1))"

text \<open>\<^verbatim>\<open>s.write(text)\<close> for whatever \<^verbatim>\<open>sys.stdout\<close> or \<^verbatim>\<open>sys.stderr\<close> currently is.\<close>

fun stream_write ::
  "stream \<Rightarrow> string \<Rightarrow> thread \<Rightarrow> logger \<Rightarrow> globals \<Rightarrow> exn + (nat \<times> logger \<times> globals)" where
  "stream_write (Original c) text th self g = Inr (length text, self, console_write c text g)"
| "stream_write (PrintCapture c name) text th self g = PrintCapture_write c name text th self g"

text \<open>\<^verbatim>\<open>print(msg)\<close>: the message and then the line end, each one \<^verbatim>\<open>write\<close> on \<^verbatim>\<open>sys.stdout\<close>.\<close>

definition py_print :: "string \<Rightarrow> thread \<Rightarrow> logger \<Rightarrow> globals \<Rightarrow> exn + (logger \<times> globals)" where
  "py_print msg th self g =
     (case stream_write (sys_stdout g) msg th self g of
        Inl e \<Rightarrow> Inl e
      | Inr (n, self1, g1) \<Rightarrow>
          (case stream_write (sys_stdout g) nl th self1 g1 of
             Inl e \<Rightarrow> Inl e
           | Inr (m, self2, g2) \<Rightarrow> Inr (self2, g2)))"

section \<open>The producer adapters' installation\<close>

definition addHandler :: "handler \<Rightarrow> handler list \<Rightarrow> handler list" where
  "addHandler h hs = (if h \<in> set hs then hs else hs @ [h])"

definition removeHandler :: "handler \<Rightarrow> handler list \<Rightarrow> handler list" where
  "removeHandler h hs = (if h \<in> set hs then remove1 h hs else hs)"

text \<open>
  \<^verbatim>\<open>_setup_logging_handler\<close>: \<^verbatim>\<open>logging.basicConfig\<close> gives the root logger a stream
  handler when it has no handler; then a new \<^verbatim>\<open>StructuredLogHandler\<close> is added.
\<close>

definition priv_setup_logging_handler :: "logger \<Rightarrow> globals \<Rightarrow> logger \<times> globals" where
  "priv_setup_logging_handler self g =
     (let g1 = (if root_handlers g = [] then g\<lparr>root_handlers := [StreamHandler]\<rparr> else g);
          h = StructuredLogHandler (handlers_made g1)
      in (self\<lparr>log_handler := Some h\<rparr>,
          g1\<lparr>root_handlers := addHandler h (root_handlers g1),
             handlers_made := Suc (handlers_made g1)\<rparr>))"

definition priv_setup_print_capture :: "logger \<Rightarrow> globals \<Rightarrow> globals" where
  "priv_setup_print_capture self g =
     g\<lparr>sys_stdout := PrintCapture (original_stdout self) ''stdout'',
       sys_stderr := PrintCapture (original_stderr self) ''stderr''\<rparr>"

section \<open>\<^verbatim>\<open>start\<close>\<close>

text \<open>
  \<^verbatim>\<open>start()\<close>, run under \<^verbatim>\<open>self.lock\<close>. Spawning the thread adds it to \<open>threads\<close> in
  state \<open>Spawned\<close>: what the thread does, \<^verbatim>\<open>open\<close> included, are steps of its own
  (\<open>writer_open\<close>, \<open>writer_pass\<close> below).
\<close>

definition start :: "thread \<Rightarrow> logger \<Rightarrow> globals \<Rightarrow> exn + (logger \<times> globals)" where
  "start th self g =
     (if running self then py_print ''Logger already running'' th self g
      else
        let self1 = self\<lparr>running := True\<rparr>;
            self2 = self1\<lparr>writer_thread := Some (length (threads g))\<rparr>;
            g1 = g\<lparr>threads := threads g @ [Spawned]\<rparr>;
            (self3, g2) = priv_setup_logging_handler self2 g1;
            g3 = (if capture_print self3 then priv_setup_print_capture self3 g2 else g2);
            (now, g4) = utcnow g3;
            (a, g5) = new_dict
              [(''severity_text'', PStr ''INFO''),
               (''body'', PStr ''Notebook logger started''),
               (''timestamp'', PStr (now @ ''Z'')),
               (''log_file'', PStr (log_file self3))] g4
        in case priv_log th a self3 g5 of
             Inl e \<Rightarrow> Inl e
           | Inr (self4, g6) \<Rightarrow>
               py_print (''Structured logging started: '' @ log_file self4) th self4 g6)"

section \<open>The writer thread\<close>

text \<open>
  \<^verbatim>\<open>json.dumps(entry, default=str)\<close> is a parameter \<open>dumps\<close>, with \<open>None\<close> when it
  raises. What the file system does with one \<^verbatim>\<open>write\<close> and \<^verbatim>\<open>flush\<close> is an input too.
\<close>

datatype io = IO_ok | Write_fails | Flush_fails

text \<open>The thread reaches \<^verbatim>\<open>with open(self.log_file, 'a') as f\<close>.\<close>

definition writer_open :: "nat \<Rightarrow> logger \<Rightarrow> globals \<Rightarrow> globals" where
  "writer_open i self g =
     (if i < length (threads g) \<and> threads g ! i = Spawned then
        g\<lparr>threads := (threads g)
             [i := (if can_open g (log_file self) then Looping [] else Died OSError)]\<rparr>
      else g)"

text \<open>
  One pass of thread \<open>i\<close> through \<^verbatim>\<open>while self.running or not self.log_queue.empty()\<close>:
  the test and, when it holds, the body. Every exception in the body (\<open>Empty\<close> after the
  timeout, a failing \<^verbatim>\<open>dumps\<close>, \<^verbatim>\<open>write\<close>, \<^verbatim>\<open>flush\<close> or \<^verbatim>\<open>task_done\<close>) goes to
  \<^verbatim>\<open>except: continue\<close>. A failed \<^verbatim>\<open>write\<close> leaves the file object as it was; a failed
  \<^verbatim>\<open>flush\<close> leaves the line in it unflushed. When the test fails the loop ends and the
  \<^verbatim>\<open>with\<close> block closes the file, which flushes what is left.
\<close>

definition writer_pass ::
  "(pydict \<Rightarrow> string option) \<Rightarrow> io \<Rightarrow> nat \<Rightarrow> logger \<Rightarrow> globals \<Rightarrow> logger \<times> globals" where
  "writer_pass dumps outcome i self g =
     (if i < length (threads g) then
        (case threads g ! i of
           Looping buf \<Rightarrow>
             if running self \<or> \<not> empty_q (log_queue self) then
               (case get_timeout (log_queue self) of
                  Inl e \<Rightarrow> (self, g)
                | Inr (a, q) \<Rightarrow>
                    let self1 = self\<lparr>log_queue := q\<rparr> in
                    (case dumps (heap g a) of
                       None \<Rightarrow> (self1, g)
                     | Some line \<Rightarrow>
                         (case outcome of
                            Write_fails \<Rightarrow> (self1, g)
                          | Flush_fails \<Rightarrow>
                              (self1, g\<lparr>threads := (threads g)[i := Looping (buf @ line @ nl)]\<rparr>)
                          | IO_ok \<Rightarrow>
                              let g1 = g\<lparr>disk := (disk g)
                                           (log_file self := disk g (log_file self) @ buf @ line @ nl),
                                         threads := (threads g)[i := Looping []]\<rparr>
                              in (case task_done q of
                                    Inl e \<Rightarrow> (self1, g1)
                                  | Inr q' \<Rightarrow> (self1\<lparr>log_queue := q'\<rparr>, g1)))))
             else
               (case outcome of
                  IO_ok \<Rightarrow>
                    (self, g\<lparr>disk := (disk g)(log_file self := disk g (log_file self) @ buf),
                             threads := (threads g)[i := Exited]\<rparr>)
                | _ \<Rightarrow> (self, g\<lparr>threads := (threads g)[i := Died OSError]\<rparr>))
         | _ \<Rightarrow> (self, g))
      else (self, g))"

section \<open>\<^verbatim>\<open>stop\<close>\<close>

text \<open>
  What other threads do while \<^verbatim>\<open>stop()\<close> waits in \<^verbatim>\<open>self.log_queue.join()\<close>: a writer
  thread reaches \<^verbatim>\<open>open\<close> or makes one pass through its loop, or some thread calls
  \<^verbatim>\<open>_log\<close> on an entry. Each is taken as one atomic step. \<^verbatim>\<open>start\<close> and \<^verbatim>\<open>stop\<close>
  calls of other threads wait for the lock and are not among them.
\<close>

datatype event = Open nat | Pass nat io | Submit thread addr

fun run_event :: "(pydict \<Rightarrow> string option) \<Rightarrow> logger \<times> globals \<Rightarrow> event \<Rightarrow> logger \<times> globals" where
  "run_event dumps (self, g) (Open i) = (self, writer_open i self g)"
| "run_event dumps (self, g) (Pass i outcome) = writer_pass dumps outcome i self g"
| "run_event dumps (self, g) (Submit th a) =
     (case priv_log th a self g of Inl e \<Rightarrow> (self, g) | Inr r \<Rightarrow> r)"

text \<open>
  \<^verbatim>\<open>Queue.join()\<close> returns when it finds \<open>unfinished_tasks\<close> at zero. \<open>evs\<close> are the
  steps of the other threads up to that test; \<open>None\<close> says that after them the caller is
  still waiting.
\<close>

definition join ::
  "(pydict \<Rightarrow> string option) \<Rightarrow> event list \<Rightarrow> logger \<Rightarrow> globals \<Rightarrow> (logger \<times> globals) option" where
  "join dumps evs self g =
     (let r = foldl (run_event dumps) (self, g) evs
      in if unfinished_tasks (log_queue (fst r)) = 0 then Some r else None)"

text \<open>\<^verbatim>\<open>stop()\<close> from the shutdown record up to the restoring of the streams.\<close>

definition stop_begin :: "thread \<Rightarrow> logger \<Rightarrow> globals \<Rightarrow> exn + (logger \<times> globals)" where
  "stop_begin th self g =
     (let (now, g1) = utcnow g;
          (a, g2) = new_dict
            [(''severity_text'', PStr ''INFO''),
             (''body'', PStr ''Notebook logger stopped''),
             (''total_cells'', PInt (cell_count self)),
             (''timestamp'', PStr (now @ ''Z''))] g1
      in case priv_log th a self g2 of
           Inl e \<Rightarrow> Inl e
         | Inr (self1, g3) \<Rightarrow>
             let self2 = self1\<lparr>running := False\<rparr>;
                 g4 = (case log_handler self2 of
                         Some h \<Rightarrow> g3\<lparr>root_handlers := removeHandler h (root_handlers g3)\<rparr>
                       | None \<Rightarrow> g3);
                 g5 = (if capture_print self2
                       then g4\<lparr>sys_stdout := Original (original_stdout self2),
                               sys_stderr := Original (original_stderr self2)\<rparr>
                       else g4)
             in Inr (self2, g5))"

text \<open>
  \<^verbatim>\<open>stop()\<close>, run under \<^verbatim>\<open>self.lock\<close>. The result is \<open>None\<close> when the schedule
  \<open>evs\<close> leaves the call waiting in \<^verbatim>\<open>join\<close>.
\<close>

definition stop ::
  "(pydict \<Rightarrow> string option) \<Rightarrow> thread \<Rightarrow> event list \<Rightarrow> logger \<Rightarrow> globals
     \<Rightarrow> (exn + (logger \<times> globals)) option" where
  "stop dumps th evs self g =
     (if \<not> running self then Some (Inr (self, g))
      else
        case stop_begin th self g of
          Inl e \<Rightarrow> Some (Inl e)
        | Inr (self2, g5) \<Rightarrow>
            (case join dumps evs self2 g5 of
               None \<Rightarrow> None
             | Some (self3, g6) \<Rightarrow> Some (py_print ''Structured logging stopped'' th self3 g6)))"

section \<open>Construction\<close>

text \<open>
  \<^verbatim>\<open>__init__(log_file, buffer_size, include_cell_info, capture_print)\<close>. The original
  streams are the process's streams at that moment.
\<close>

definition init :: "string \<Rightarrow> int \<Rightarrow> bool \<Rightarrow> bool \<Rightarrow> logger" where
  "init path buffer_size cell_info capture =
     \<lparr>log_file = path, include_cell_info = cell_info, capture_print = capture,
      log_queue = Queue buffer_size, running = False, writer_thread = None,
      current_cell = None, cell_count = 0,
      original_stdout = Stdout, original_stderr = Stderr, log_handler = None\<rparr>"

section \<open>Manual logging, the logging-framework handler, the cell hooks\<close>

text \<open>
  \<^verbatim>\<open>log(self, level, message, **kwargs)\<close>: a keyword argument that has the name of one
  of the three parameters is not collected into \<^verbatim>\<open>kwargs\<close>; the call itself raises
  \<open>TypeError\<close> (the parameter gets more than one value) and the body does not run.
  \<open>reserved_keywords\<close> lists the keywords of a call that have such a name.
\<close>

definition reserved_keywords :: "pydict \<Rightarrow> string list" where
  "reserved_keywords kwargs =
     filter (\<lambda>k. k = ''self'' \<or> k = ''level'' \<or> k = ''message'') (map fst kwargs)"

text \<open>
  Otherwise the body builds a new dictionary in which the keyword arguments come after
  \<^verbatim>\<open>severity_text\<close> and \<^verbatim>\<open>body\<close>, and passes it to \<^verbatim>\<open>_log\<close>. \<^verbatim>\<open>str.upper\<close> is the
  parameter \<open>upper\<close>.
\<close>

definition log ::
  "(string \<Rightarrow> string) \<Rightarrow> thread \<Rightarrow> string \<Rightarrow> string \<Rightarrow> pydict \<Rightarrow> logger \<Rightarrow> globals
     \<Rightarrow> exn + (logger \<times> globals)" where
  "log upper th level message kwargs self g =
     (if reserved_keywords kwargs \<noteq> [] then Inl TypeError
      else
        let (a, g1) = new_dict
              (foldl (\<lambda>d (k, v). setitem d k v)
                 [(''severity_text'', PStr (upper level)), (''body'', PStr message)] kwargs) g
        in priv_log th a self g1)"

text \<open>
  What \<^verbatim>\<open>StructuredLogHandler.emit\<close> reads from a framework record; \<open>exc_info\<close> is the
  truth value of \<^verbatim>\<open>record.exc_info\<close>.
\<close>

record log_record =
  levelname :: string
  formatted :: string
  logger_name :: string
  rec_module :: string
  funcName :: string
  lineno :: int
  exc_info :: bool

text \<open>
  The handler class derives from \<^verbatim>\<open>logging.Handler\<close>, which has \<^verbatim>\<open>format\<close> but no
  \<^verbatim>\<open>formatException\<close> (that is a method of \<^verbatim>\<open>logging.Formatter\<close>): for a record that
  carries exception information the attribute lookup \<^verbatim>\<open>self.formatException\<close> raises
  \<open>AttributeError\<close>, after the dictionary has been built and before \<^verbatim>\<open>_log\<close> is called.
\<close>

definition emit :: "thread \<Rightarrow> log_record \<Rightarrow> logger \<Rightarrow> globals \<Rightarrow> exn + (logger \<times> globals)" where
  "emit th r self g =
     (let (now, g1) = utcnow g;
          (a, g2) = new_dict
            [(''severity_text'', PStr (levelname r)),
             (''body'', PStr (formatted r)),
             (''logger_name'', PStr (logger_name r)),
             (''module'', PStr (rec_module r)),
             (''function'', PStr (funcName r)),
             (''line'', PInt (lineno r)),
             (''timestamp'', PStr (now @ ''Z''))] g1
      in if exc_info r then Inl AttributeError
         else priv_log th a self g2)"

text \<open>Decimal text of an integer, for the f-strings.\<close>

fun str_nat :: "nat \<Rightarrow> string" where
  "str_nat n = (if n < 10 then [char_of (48 + n)] else str_nat (n div 10) @ [char_of (48 + n mod 10)])"

declare str_nat.simps [simp del]

definition str_int :: "int \<Rightarrow> string" where
  "str_int i = (if i < 0 then CHR ''-'' # str_nat (nat (- i)) else str_nat (nat i))"

text \<open>The argument of \<^verbatim>\<open>_pre_run_cell\<close>: its \<^verbatim>\<open>cell_id\<close> (\<open>PNone\<close> when absent) and \<^verbatim>\<open>raw_cell\<close>.\<close>

record cell_info =
  info_cell_id :: pyval
  raw_cell :: "string option"

definition priv_pre_run_cell ::
  "thread \<Rightarrow> cell_info \<Rightarrow> logger \<Rightarrow> globals \<Rightarrow> exn + (logger \<times> globals)" where
  "priv_pre_run_cell th info self g =
     (let self1 = self\<lparr>cell_count := cell_count self + 1\<rparr>;
          (t0, g1) = utcnow g;
          self2 = self1\<lparr>current_cell :=
                    Some \<lparr>cell_number = cell_count self1, cell_id = info_cell_id info,
                          start_time = t0\<rparr>\<rparr>
      in if include_cell_info self2 then
           (let preview = (case raw_cell info of
                             Some src \<Rightarrow> if src \<noteq> [] then take 100 src else []
                           | None \<Rightarrow> []);
                (now, g2) = utcnow g1;
                (a, g3) = new_dict
                  [(''severity_text'', PStr ''DEBUG''),
                   (''body'', PStr (''Cell '' @ str_int (cell_count self2) @ '' execution started'')),
                   (''event'', PStr ''cell_start''),
                   (''cell_preview'', PStr preview),
                   (''timestamp'', PStr (now @ ''Z''))] g2
            in priv_log th a self2 g3)
         else Inr (self2, g1))"

text \<open>The argument of \<^verbatim>\<open>_post_run_cell\<close>: \<^verbatim>\<open>str(error_in_exec)\<close> when there is one, and \<^verbatim>\<open>success\<close>.\<close>

record cell_result =
  error_in_exec :: "string option"
  success :: bool

definition priv_post_run_cell ::
  "thread \<Rightarrow> cell_result \<Rightarrow> logger \<Rightarrow> globals \<Rightarrow> exn + (logger \<times> globals)" where
  "priv_post_run_cell th res self g =
     (case (if include_cell_info self \<and> current_cell self \<noteq> None then
              (let (now, g1) = utcnow g;
                   d = [(''severity_text'', PStr (if error_in_exec res \<noteq> None then ''ERROR'' else ''DEBUG'')),
                        (''body'', PStr (''Cell '' @ str_int (cell_count self) @ '' execution completed'')),
                        (''event'', PStr ''cell_end''),
                        (''success'', PBool (success res)),
                        (''timestamp'', PStr (now @ ''Z''))];
                   d' = (case error_in_exec res of Some t \<Rightarrow> setitem d ''error'' (PStr t) | None \<Rightarrow> d);
                   (a, g2) = new_dict d' g1
               in priv_log th a self g2)
            else Inr (self, g)) of
        Inl e \<Rightarrow> Inl e
      | Inr (self1, g3) \<Rightarrow> Inr (self1\<lparr>current_cell := None\<rparr>, g3))"

section \<open>The module's singleton and \<^verbatim>\<open>start_logging\<close>\<close>

text \<open>
  The keyword arguments passed on to the constructor: the three it knows, each optional, and
  the names of any other, which make the constructor raise \<open>TypeError\<close>.
\<close>

record kwargs =
  kw_buffer_size :: "int option"
  kw_include_cell_info :: "bool option"
  kw_capture_print :: "bool option"
  kw_other :: "string list"

definition construct :: "string \<Rightarrow> kwargs \<Rightarrow> exn + logger" where
  "construct path kw =
     (if kw_other kw \<noteq> [] then Inl TypeError
      else Inr (init path
                  (case kw_buffer_size kw of Some n \<Rightarrow> n | None \<Rightarrow> 1000)
                  (case kw_include_cell_info kw of Some b \<Rightarrow> b | None \<Rightarrow> True)
                  (case kw_capture_print kw of Some b \<Rightarrow> b | None \<Rightarrow> False)))"

text \<open>\<^verbatim>\<open>get_logger\<close> on the module variable \<^verbatim>\<open>_logger_instance\<close>; the result is the new value of
  the variable, which is also what the call returns.\<close>

definition get_logger :: "string \<Rightarrow> kwargs \<Rightarrow> logger option \<Rightarrow> exn + logger" where
  "get_logger path kw inst =
     (case inst of None \<Rightarrow> construct path kw | Some l \<Rightarrow> Inr l)"

definition LIVE_LOGS_FILE_PATH :: string where
  "LIVE_LOGS_FILE_PATH = ''LIVE_LOGS_FILE_PATH''"

definition getenv :: "globals \<Rightarrow> string \<Rightarrow> string \<Rightarrow> string" where
  "getenv g name dflt = (case environ g name of Some v \<Rightarrow> v | None \<Rightarrow> dflt)"

fun stream_console :: "stream \<Rightarrow> console" where
  "stream_console (Original c) = c"
| "stream_console (PrintCapture c name) = c"

text \<open>
  \<^verbatim>\<open>start_logging(log_file, **kwargs)\<close>. The result is the value returned (\<open>None\<close> or the
  logger), the module variable \<^verbatim>\<open>_logger_instance\<close> after the call, and the process state.
  When there is no singleton, \<^verbatim>\<open>print\<close> has no logger of this model to reach and its text
  goes to the console behind \<^verbatim>\<open>sys.stdout\<close>.
\<close>

definition start_logging ::
  "thread \<Rightarrow> string \<Rightarrow> kwargs \<Rightarrow> logger option \<Rightarrow> globals
     \<Rightarrow> exn + (logger option \<times> logger option \<times> globals)" where
  "start_logging th log_file_arg kw inst g =
     (let json_file_path = getenv g LIVE_LOGS_FILE_PATH [] in
      if json_file_path = [] then
        (let msg = ''Environment variable LIVE_LOGS_FILE_PATH not set. Logging not started.'' in
         case inst of
           None \<Rightarrow> Inr (None, None, console_write (stream_console (sys_stdout g)) (msg @ nl) g)
         | Some l \<Rightarrow>
             (case py_print msg th l g of
                Inl e \<Rightarrow> Inl e
              | Inr (l', g') \<Rightarrow> Inr (None, Some l', g')))
      else
        (case get_logger json_file_path kw inst of
           Inl e \<Rightarrow> Inl e
         | Inr l \<Rightarrow>
             (case start th l g of
                Inl e \<Rightarrow> Inl e
              | Inr (l', g') \<Rightarrow> Inr (Some l', Some l', g'))))"

section \<open>The states the operations can reach\<close>

text \<open>
  From a newly constructed logger, in any process state, by calls of the logger's methods,
  writes to the two global streams and steps of the writer threads.
\<close>

inductive reachable ::
  "(pydict \<Rightarrow> string option) \<Rightarrow> (string \<Rightarrow> string) \<Rightarrow> logger \<Rightarrow> globals \<Rightarrow> bool"
  for dumps :: "pydict \<Rightarrow> string option" and upper :: "string \<Rightarrow> string" where
  r_init: "reachable dumps upper (init path n ci cp) g"
| r_start: "reachable dumps upper self g \<Longrightarrow> start th self g = Inr (self', g')
     \<Longrightarrow> reachable dumps upper self' g'"
| r_stop: "reachable dumps upper self g \<Longrightarrow> stop dumps th evs self g = Some (Inr (self', g'))
     \<Longrightarrow> reachable dumps upper self' g'"
| r_stopping: "reachable dumps upper self g \<Longrightarrow> running self
     \<Longrightarrow> stop_begin th self g = Inr (self', g')
     \<Longrightarrow> reachable dumps upper self' g'"
| r_event: "reachable dumps upper self g \<Longrightarrow> run_event dumps (self, g) ev = (self', g')
     \<Longrightarrow> reachable dumps upper self' g'"
| r_log: "reachable dumps upper self g \<Longrightarrow> log upper th level message kw self g = Inr (self', g')
     \<Longrightarrow> reachable dumps upper self' g'"
| r_emit: "reachable dumps upper self g \<Longrightarrow> emit th r self g = Inr (self', g')
     \<Longrightarrow> reachable dumps upper self' g'"
| r_stdout: "reachable dumps upper self g \<Longrightarrow> stream_write (sys_stdout g) text th self g = Inr (k, self', g')
     \<Longrightarrow> reachable dumps upper self' g'"
| r_stderr: "reachable dumps upper self g \<Longrightarrow> stream_write (sys_stderr g) text th self g = Inr (k, self', g')
     \<Longrightarrow> reachable dumps upper self' g'"
| r_pre_run_cell: "reachable dumps upper self g \<Longrightarrow> priv_pre_run_cell th info self g = Inr (self', g')
     \<Longrightarrow> reachable dumps upper self' g'"
| r_post_run_cell: "reachable dumps upper self g \<Longrightarrow> priv_post_run_cell th res self g = Inr (self', g')
     \<Longrightarrow> reachable dumps upper self' g'"

section \<open>Concrete states for the examples\<close>

definition boot :: globals where
  "boot =
     \<lparr>heap = (\<lambda>_. []), next_addr = 0, clock = (\<lambda>_. ''2024-01-01T00:00:00''), ticks = 0,
      sys_stdout = Original Stdout, sys_stderr = Original Stderr,
      dev_out = \<lparr>flushed = [], pending = []\<rparr>, dev_err = \<lparr>flushed = [], pending = []\<rparr>,
      root_handlers = [], handlers_made = 0, threads = [],
      disk = (\<lambda>_. []), can_open = (\<lambda>_. True), environ = (\<lambda>_. None)\<rparr>"

definition main_thread :: thread where
  "main_thread = \<lparr>ident = 77, tname = ''MainThread''\<rparr>"

text \<open>A running logger of capacity one whose queue already holds the entry at address 0.\<close>

definition full_logger :: logger where
  "full_logger =
     (init ''app.log'' 1 True False)
       \<lparr>running := True, log_queue := \<lparr>maxsize = 1, items = [0], unfinished_tasks = 1\<rparr>\<rparr>"


text \<open>A process in which the target file cannot be opened.\<close>

definition locked_boot :: globals where
  "locked_boot = boot\<lparr>can_open := (\<lambda>_. False)\<rparr>"

text \<open>A logger with the default options, and the state after \<^verbatim>\<open>start()\<close> on it.\<close>

definition fresh_logger :: logger where
  "fresh_logger = init ''app.log'' 1000 True False"

definition started :: "logger \<times> globals" where
  "started = (case start main_thread fresh_logger boot of Inr r \<Rightarrow> r | Inl e \<Rightarrow> (fresh_logger, boot))"

text \<open>\<^verbatim>\<open>str.upper\<close> on ASCII text, for the examples.\<close>

definition ascii_upper :: "string \<Rightarrow> string" where
  "ascii_upper s =
     map (\<lambda>c. if 97 \<le> (of_char c :: nat) \<and> (of_char c :: nat) \<le> 122
              then char_of ((of_char c :: nat) - 32) else c) s"

text \<open>
  A manual call \<^verbatim>\<open>logger.log("info", "hello", body="other")\<close> on the started logger; the
  dictionary it builds is at the address that was free before the call.
\<close>

definition logged_hello :: "logger \<times> globals" where
  "logged_hello =
     (case log ascii_upper main_thread ''info'' ''hello'' [(''body'', PStr ''other'')]
             (fst started) (snd started) of
        Inr r \<Rightarrow> r | Inl e \<Rightarrow> started)"

text \<open>
  A caller's own dictionary, allocated in the started process, and the state after the caller
  has passed it to \<^verbatim>\<open>_log\<close>.
\<close>

definition caller_entry :: "addr \<times> globals" where
  "caller_entry = new_dict [(''severity_text'', PStr ''INFO''), (''body'', PStr ''hi'')] (snd started)"

definition submitted_entry :: "logger \<times> globals" where
  "submitted_entry =
     (case priv_log main_thread (fst caller_entry) (fst started) (snd caller_entry) of
        Inr r \<Rightarrow> r | Inl e \<Rightarrow> started)"

text \<open>
  A logger with stream capture, the state after \<^verbatim>\<open>start()\<close> on it, and the result of
  writing \<^verbatim>\<open>"hello\n"\<close> to \<^verbatim>\<open>sys.stdout\<close> in that state.
\<close>

definition capture_logger :: logger where
  "capture_logger = init ''app.log'' 1000 True True"

definition started_capture :: "logger \<times> globals" where
  "started_capture =
     (case start main_thread capture_logger boot of Inr r \<Rightarrow> r | Inl e \<Rightarrow> (capture_logger, boot))"

definition hello_line :: string where
  "hello_line = ''hello'' @ nl"

definition wrote_hello :: "logger \<times> globals" where
  "wrote_hello =
     (case stream_write (sys_stdout (snd started_capture)) hello_line main_thread
             (fst started_capture) (snd started_capture) of
        Inr (n, r) \<Rightarrow> r | Inl e \<Rightarrow> started_capture)"

text \<open>
  The first part of \<^verbatim>\<open>stop()\<close> on the logger that was started and then given one manual
  log call.
\<close>

definition stopping_hello :: "logger \<times> globals" where
  "stopping_hello =
     (case stop_begin main_thread (fst logged_hello) (snd logged_hello) of
        Inr r \<Rightarrow> r | Inl e \<Rightarrow> logged_hello)"

text \<open>A process whose environment names the target file, and a call without keyword arguments.\<close>

definition env_boot :: globals where
  "env_boot = boot\<lparr>environ := (\<lambda>n. if n = LIVE_LOGS_FILE_PATH then Some ''/tmp/live.log'' else None)\<rparr>"

definition no_kwargs :: kwargs where
  "no_kwargs = \<lparr>kw_buffer_size = None, kw_include_cell_info = None, kw_capture_print = None,
                 kw_other = []\<rparr>"

text \<open>
  A serialiser for the examples: what \<^verbatim>\<open>json.dumps(entry, default=str)\<close> returns for an
  entry whose keys and strings need no escaping.
\<close>

fun show_val :: "pyval \<Rightarrow> string" where
  "show_val (PStr s) = CHR 0x22 # s @ [CHR 0x22]"
| "show_val (PInt i) = str_int i"
| "show_val (PBool b) = (if b then ''true'' else ''false'')"
| "show_val PNone = ''null''"

fun show_items :: "pydict \<Rightarrow> string" where
  "show_items [] = []"
| "show_items [(k, v)] = CHR 0x22 # k @ CHR 0x22 # '': '' @ show_val v"
| "show_items ((k, v) # d) = CHR 0x22 # k @ CHR 0x22 # '': '' @ show_val v @ '', '' @ show_items d"

definition plain_dumps :: "pydict \<Rightarrow> string option" where
  "plain_dumps d = Some (''{'' @ show_items d @ ''}'')"

text \<open>
  The logger that was started and given one manual log call, once its writer thread has
  opened the file; and the state after a pass of that thread in which \<^verbatim>\<open>write\<close> fails.
\<close>

definition opened :: globals where
  "opened = writer_open 0 (fst logged_hello) (snd logged_hello)"

definition failed_pass :: "logger \<times> globals" where
  "failed_pass = writer_pass plain_dumps Write_fails 0 (fst logged_hello) opened"

text \<open>
  A run of \<^verbatim>\<open>stop()\<close> on the started logger: while the call waits in \<^verbatim>\<open>join\<close>, the
  writer thread opens the file and makes two passes, for the startup and the shutdown
  record.
\<close>

definition stop_schedule :: "event list" where
  "stop_schedule = [Open 0, Pass 0 IO_ok, Pass 0 IO_ok]"

definition stopped :: "logger \<times> globals" where
  "stopped =
     (case stop plain_dumps main_thread stop_schedule (fst started) (snd started) of
        Some (Inr r) \<Rightarrow> r | _ \<Rightarrow> started)"

text \<open>
  The started logger inside a notebook cell: the state after \<^verbatim>\<open>_pre_run_cell\<close> for a
  cell with the id \<^verbatim>\<open>"c1"\<close>, and for a cell without an id. In each, a caller's dictionary
  that has a \<^verbatim>\<open>cell_number\<close> and a \<^verbatim>\<open>cell_id\<close> of its own.
\<close>

definition in_cell :: "logger \<times> globals" where
  "in_cell =
     (case priv_pre_run_cell main_thread \<lparr>info_cell_id = PStr ''c1'', raw_cell = Some ''x = 1''\<rparr>
             (fst started) (snd started) of
        Inr r \<Rightarrow> r | Inl e \<Rightarrow> started)"

definition in_unnamed_cell :: "logger \<times> globals" where
  "in_unnamed_cell =
     (case priv_pre_run_cell main_thread \<lparr>info_cell_id = PNone, raw_cell = None\<rparr>
             (fst started) (snd started) of
        Inr r \<Rightarrow> r | Inl e \<Rightarrow> started)"

definition cell_entry :: "addr \<times> globals" where
  "cell_entry =
     new_dict [(''cell_number'', PInt 99), (''cell_id'', PStr ''mine''), (''body'', PStr ''hi'')]
       (snd in_cell)"

definition unnamed_cell_entry :: "addr \<times> globals" where
  "unnamed_cell_entry =
     new_dict [(''cell_number'', PInt 99), (''cell_id'', PStr ''mine''), (''body'', PStr ''hi'')]
       (snd in_unnamed_cell)"

section \<open>Properties\<close>

subsection \<open>Frames of the basic operations\<close>

lemma queue_update_id [simp]: "\<exists>Q. self = self\<lparr>log_queue := Q\<rparr>"
  by (rule exI [of _ "log_queue self"]) simp

lemma priv_log_shape:
  "\<exists>Q H T. priv_log th a self g = Inr (self\<lparr>log_queue := Q\<rparr>, g\<lparr>heap := H, ticks := T\<rparr>)"
proof (cases "running self")
  case False
  have "priv_log th a self g = Inr (self\<lparr>log_queue := log_queue self\<rparr>, g\<lparr>heap := heap g, ticks := ticks g\<rparr>)"
    using False by (simp add: priv_log_def)
  then show ?thesis by blast
next
  case True
  show ?thesis
  proof (cases "put_nowait (log_queue self) a")
    case (Inl e)
    have "priv_log th a self g = Inr (self\<lparr>log_queue := log_queue self\<rparr>,
        g\<lparr>heap := (heap g)(a := stamp self (clock g (ticks g)) th (heap g a)), ticks := Suc (ticks g)\<rparr>)"
      using True Inl by (simp add: priv_log_def utcnow_def)
    then show ?thesis by blast
  next
    case (Inr q)
    have "priv_log th a self g = Inr (self\<lparr>log_queue := q\<rparr>,
        g\<lparr>heap := (heap g)(a := stamp self (clock g (ticks g)) th (heap g a)), ticks := Suc (ticks g)\<rparr>)"
      using True Inr by (simp add: priv_log_def utcnow_def)
    then show ?thesis by blast
  qed
qed

lemma strip_nl: "strip nl = []"
  by (simp add: strip_def lstrip_def rstrip_def nl_def py_isspace_def)

lemma PrintCapture_write_shape:
  "\<exists>Q g'. PrintCapture_write c name text th self g = Inr (length text, self\<lparr>log_queue := Q\<rparr>, g')
     \<and> threads g' = threads g
     \<and> sys_stdout g' = sys_stdout g
     \<and> console_dev c g' = flush_device ((console_dev c g)\<lparr>pending := pending (console_dev c g) @ text\<rparr>)"
proof (cases "text \<noteq> [] \<and> strip text \<noteq> []")
  case False
  then have "PrintCapture_write c name text th self g =
      Inr (length text, self\<lparr>log_queue := log_queue self\<rparr>, console_flush c (console_write c text g))"
    by (auto simp add: PrintCapture_write_def Let_def)
  then show ?thesis
    by (cases c) (auto simp: console_flush_def console_write_def console_dev_def intro: exI[of _ "log_queue self"])
next
  case True
  define g3 where "g3 = snd (new_dict
               [(''severity_text'', PStr (if name = ''stderr'' then ''ERROR'' else ''INFO'')),
                (''body'', PStr (rstrip text)),
                (''source'', PStr ''print''),
                (''stream'', PStr name),
                (''timestamp'', PStr (fst (utcnow (console_flush c (console_write c text g))) @ ''Z''))]
                (snd (utcnow (console_flush c (console_write c text g)))))"
  define a where "a = next_addr g"
  obtain Q H T where pl: "priv_log th a self g3 = Inr (self\<lparr>log_queue := Q\<rparr>, g3\<lparr>heap := H, ticks := T\<rparr>)"
    using priv_log_shape by blast
  have a: "a = fst (new_dict
               [(''severity_text'', PStr (if name = ''stderr'' then ''ERROR'' else ''INFO'')),
                (''body'', PStr (rstrip text)),
                (''source'', PStr ''print''),
                (''stream'', PStr name),
                (''timestamp'', PStr (fst (utcnow (console_flush c (console_write c text g))) @ ''Z''))]
                (snd (utcnow (console_flush c (console_write c text g)))))"
    by (cases c) (simp_all add: a_def new_dict_def utcnow_def console_flush_def console_write_def)
  have "PrintCapture_write c name text th self g = Inr (length text, self\<lparr>log_queue := Q\<rparr>, g3\<lparr>heap := H, ticks := T\<rparr>)"
    using True pl unfolding PrintCapture_write_def Let_def g3_def a
    by (simp add: case_prod_beta)
  moreover have "threads g3 = threads g" "sys_stdout g3 = sys_stdout g"
    "console_dev c g3 = flush_device ((console_dev c g)\<lparr>pending := pending (console_dev c g) @ text\<rparr>)"
    by (cases c; simp add: g3_def new_dict_def utcnow_def console_flush_def console_write_def console_dev_def)+
  ultimately show ?thesis
    by (cases c) (auto simp: console_dev_def)
qed

lemma received_flush_append:
  "received (flush_device (d\<lparr>pending := pending d @ text\<rparr>)) = received d @ text"
  by (simp add: received_def flush_device_def)

lemma stream_write_shape:
  "\<exists>Q g'. stream_write s text th self g = Inr (length text, self\<lparr>log_queue := Q\<rparr>, g')
     \<and> threads g' = threads g
     \<and> sys_stdout g' = sys_stdout g
     \<and> received (console_dev (stream_console s) g') = received (console_dev (stream_console s) g) @ text"
proof (cases s)
  case (Original c)
  have "stream_write s text th self g = Inr (length text, self\<lparr>log_queue := log_queue self\<rparr>, console_write c text g)"
    using Original by simp
  moreover have "received (console_dev c (console_write c text g)) = received (console_dev c g) @ text"
    by (cases c) (simp_all add: console_write_def console_dev_def received_def)
  moreover have "threads (console_write c text g) = threads g" "sys_stdout (console_write c text g) = sys_stdout g"
    by (cases c; simp add: console_write_def)+
  ultimately show ?thesis using Original by auto
next
  case (PrintCapture c name)
  then show ?thesis
    using PrintCapture_write_shape [of c name "text" th self g]
    by (auto simp: received_flush_append)
qed

lemma py_print_shape:
  "\<exists>Q g'. py_print msg th self g = Inr (self\<lparr>log_queue := Q\<rparr>, g')
     \<and> threads g' = threads g
     \<and> sys_stdout g' = sys_stdout g
     \<and> received (console_dev (stream_console (sys_stdout g)) g')
         = received (console_dev (stream_console (sys_stdout g)) g) @ msg @ nl"
proof -
  obtain Q1 g1 where w1: "stream_write (sys_stdout g) msg th self g = Inr (length msg, self\<lparr>log_queue := Q1\<rparr>, g1)"
    and f1: "threads g1 = threads g" "sys_stdout g1 = sys_stdout g"
      "received (console_dev (stream_console (sys_stdout g)) g1)
         = received (console_dev (stream_console (sys_stdout g)) g) @ msg"
    using stream_write_shape [of "sys_stdout g" msg th self g] by blast
  obtain Q2 g2 where w2: "stream_write (sys_stdout g) nl th (self\<lparr>log_queue := Q1\<rparr>) g1
        = Inr (length nl, self\<lparr>log_queue := Q1\<rparr>\<lparr>log_queue := Q2\<rparr>, g2)"
    and f2: "threads g2 = threads g1" "sys_stdout g2 = sys_stdout g1"
      "received (console_dev (stream_console (sys_stdout g)) g2)
         = received (console_dev (stream_console (sys_stdout g)) g1) @ nl"
    using stream_write_shape [of "sys_stdout g" nl th "self\<lparr>log_queue := Q1\<rparr>" g1] by blast
  have "py_print msg th self g = Inr (self\<lparr>log_queue := Q2\<rparr>, g2)"
    using w1 w2 by (simp add: py_print_def)
  then show ?thesis using f1 f2 by auto
qed


lemma start_running_returns:
  assumes "running self"
  shows "\<exists>Q g'. start th self g = Inr (self\<lparr>log_queue := Q\<rparr>, g')
           \<and> threads g' = threads g
           \<and> received (console_dev (stream_console (sys_stdout g)) g')
               = received (console_dev (stream_console (sys_stdout g)) g) @ ''Logger already running'' @ nl"
proof -
  obtain Q g' where p: "py_print ''Logger already running'' th self g = Inr (self\<lparr>log_queue := Q\<rparr>, g')"
    and f: "threads g' = threads g"
      "received (console_dev (stream_console (sys_stdout g)) g')
         = received (console_dev (stream_console (sys_stdout g)) g) @ ''Logger already running'' @ nl"
    using py_print_shape [of "''Logger already running''" th self g] by blast
  have "start th self g = Inr (self\<lparr>log_queue := Q\<rparr>, g')"
    using assms p by (simp add: start_def)
  then show ?thesis using f by blast
qed


lemma started_running: "running (fst started)"
  by (simp add: started_def start_def fresh_logger_def init_def boot_def main_thread_def
     priv_setup_logging_handler_def addHandler_def utcnow_def new_dict_def priv_log_def
     put_nowait_def full_def Queue_def py_print_def console_write_def stamp_def Let_def)

lemma log_effects_refl [simp]: "log_effects g g"
  by (simp add: log_effects_def)

lemma log_effects_trans: "log_effects g g1 \<Longrightarrow> log_effects g1 g2 \<Longrightarrow> log_effects g g2"
  by (simp add: log_effects_def)

lemma queue_only_refl [simp]: "queue_only self self"
  by (simp add: queue_only_def)


lemma priv_log_not_Inl [simp]: "priv_log th a self g \<noteq> Inl e"
  by (simp add: priv_log_def utcnow_def Let_def split: sum.splits)

lemma priv_log_effects: "priv_log th a self g = Inr (self', g') \<Longrightarrow> log_effects g g'"
  by (auto simp: priv_log_def utcnow_def log_effects_def Let_def split: if_splits sum.splits)

lemma priv_log_queue_only: "priv_log th a self g = Inr (self', g') \<Longrightarrow> queue_only self self'"
  by (auto simp: priv_log_def utcnow_def queue_only_def put_nowait_def Let_def
           split: if_splits sum.splits)

lemma PrintCapture_write_not_Inl [simp]: "PrintCapture_write c name t th self g \<noteq> Inl e"
  by (simp add: PrintCapture_write_def Let_def case_prod_beta split: sum.splits)

lemma PrintCapture_write_effects:
  assumes "PrintCapture_write c name t th self g = Inr (n, self', g')"
  shows "log_effects g g'"
  using assms unfolding PrintCapture_write_def Let_def
  by (cases c)
     (auto simp: utcnow_def new_dict_def console_flush_def console_write_def log_effects_def
           split: if_splits sum.splits dest!: priv_log_effects)

lemma PrintCapture_write_queue_only:
  assumes "PrintCapture_write c name t th self g = Inr (n, self', g')"
  shows "queue_only self self'"
  using assms unfolding PrintCapture_write_def Let_def
  by (auto simp: case_prod_beta split: if_splits sum.splits dest: priv_log_queue_only)

lemma stream_write_not_Inl [simp]: "stream_write s t th self g \<noteq> Inl e"
  by (cases s) simp_all

lemma stream_write_effects:
  "stream_write s t th self g = Inr (n, self', g') \<Longrightarrow> log_effects g g'"
  by (cases s) (auto dest: PrintCapture_write_effects simp: console_write_def log_effects_def split: console.splits)

lemma stream_write_queue_only:
  "stream_write s t th self g = Inr (n, self', g') \<Longrightarrow> queue_only self self'"
  by (cases s) (auto dest: PrintCapture_write_queue_only)

lemma py_print_not_Inl [simp]: "py_print msg th self g \<noteq> Inl e"
  by (simp add: py_print_def split: sum.splits)

lemma py_print_effects:
  "py_print msg th self g = Inr (self', g') \<Longrightarrow> log_effects g g'"
  unfolding py_print_def
  by (auto split: sum.splits dest!: stream_write_effects simp: log_effects_def)

lemma py_print_queue_only:
  "py_print msg th self g = Inr (self', g') \<Longrightarrow> queue_only self self'"
  unfolding py_print_def
  by (auto split: sum.splits dest!: stream_write_queue_only simp: queue_only_def)

lemma start_not_Inl [simp]: "start th self g \<noteq> Inl e"
  by (simp add: start_def Let_def case_prod_beta split: sum.splits)

lemma start_stopped_frame:
  assumes "\<not> running self" "start th self g = Inr (self', g')"
  shows "running self' \<and> writer_thread self' = Some (length (threads g))
       \<and> log_file self' = log_file self
       \<and> threads g' = threads g @ [Spawned] \<and> can_open g' = can_open g
       \<and> disk g' = disk g \<and> environ g' = environ g"
proof -
  from assms obtain a self3 g5 self4 g6 where
    pl: "priv_log th a self3 g5 = Inr (self4, g6)" and
    pp: "py_print (''Structured logging started: '' @ log_file self4) th self4 g6 = Inr (self', g')" and
    s3: "running self3" "writer_thread self3 = Some (length (threads g))" "log_file self3 = log_file self" and
    g5: "threads g5 = threads g @ [Spawned]" "can_open g5 = can_open g" "disk g5 = disk g"
        "environ g5 = environ g"
    unfolding start_def
    by (auto simp: Let_def case_prod_beta priv_setup_logging_handler_def priv_setup_print_capture_def
                   utcnow_def new_dict_def
             split: sum.splits if_splits)
  have "queue_only self3 self4" "queue_only self4 self'" "log_effects g5 g6" "log_effects g6 g'"
    by (rule priv_log_queue_only [OF pl] py_print_queue_only [OF pp]
             priv_log_effects [OF pl] py_print_effects [OF pp])+
  then show ?thesis using s3 g5 by (simp add: queue_only_def log_effects_def)
qed

lemma start_returns: "\<exists>self' g'. start th self g = Inr (self', g')"
  by (cases "start th self g") auto

lemma writer_open_spawned:
  assumes "threads g = ts @ [Spawned]"
  shows "threads (writer_open (length ts) self g)
       = ts @ [if can_open g (log_file self) then Looping [] else Died OSError]"
  using assms by (simp add: writer_open_def nth_append)

lemma getitem_setitem: "getitem (setitem d k v) k' = (if k' = k then Some v else getitem d k')"
  by (induction d) (auto simp: getitem_def)

lemma getitem_stamp_timestamp:
  "getitem (stamp self now th d) ''timestamp'' = Some (PStr (now @ ''Z''))"
  by (simp add: stamp_def Let_def getitem_setitem split: option.splits)

lemma getitem_stamp_thread_id:
  "getitem (stamp self now th d) ''thread_id'' = Some (PInt (ident th))"
  by (simp add: stamp_def Let_def getitem_setitem split: option.splits)

lemma getitem_stamp_thread_name:
  "getitem (stamp self now th d) ''thread_name'' = Some (PStr (tname th))"
  by (simp add: stamp_def Let_def getitem_setitem split: option.splits)

lemma getitem_stamp_other:
  assumes "k \<noteq> ''timestamp''" "k \<noteq> ''thread_id''" "k \<noteq> ''thread_name''"
    "k \<noteq> ''cell_number''" "k \<noteq> ''cell_id''"
  shows "getitem (stamp self now th d) k = getitem d k"
  using assms by (simp add: stamp_def Let_def getitem_setitem split: option.splits)

lemma getitem_stamp_cell_number:
  "getitem (stamp self now th d) ''cell_number'' =
     (case current_cell self of
        Some c \<Rightarrow> if include_cell_info self then Some (PInt (cell_number c))
                  else getitem d ''cell_number''
      | None \<Rightarrow> getitem d ''cell_number'')"
  by (simp add: stamp_def Let_def getitem_setitem split: option.splits)

lemma getitem_stamp_cell_id:
  "getitem (stamp self now th d) ''cell_id'' =
     (case current_cell self of
        Some c \<Rightarrow> if include_cell_info self \<and> truthy (cell_id c) then Some (cell_id c)
                  else getitem d ''cell_id''
      | None \<Rightarrow> getitem d ''cell_id'')"
  by (simp add: stamp_def Let_def getitem_setitem split: option.splits)

lemma stamp_no_cell:
  assumes "current_cell self = None"
  shows "stamp self now th d =
    setitem (setitem (setitem d ''timestamp'' (PStr (now @ ''Z''))) ''thread_id'' (PInt (ident th)))
      ''thread_name'' (PStr (tname th))"
  using assms by (simp add: stamp_def Let_def)

lemma getitem_kwargs:
  "getitem (foldl (\<lambda>d (k, v). setitem d k v) d kw) k =
     (case map_of (rev kw) k of Some v \<Rightarrow> Some v | None \<Rightarrow> getitem d k)"
proof (induction kw arbitrary: d)
  case Nil
  then show ?case by simp
next
  case (Cons p kw)
  obtain k' v' where p: "p = (k', v')" by (cases p)
  show ?case
    unfolding p using Cons [of "setitem d k' v'"]
    by (auto simp: getitem_setitem map_add_def split: option.splits)
qed

lemma map_of_rev_distinct:
  assumes "distinct (map fst kw)"
  shows "map_of (rev kw) = map_of kw"
proof (rule ext)
  fix k
  show "map_of (rev kw) k = map_of kw k"
  proof (cases "map_of kw k")
    case None
    then have "k \<notin> fst ` set kw" by (simp add: map_of_eq_None_iff)
    then have "map_of (rev kw) k = None" by (simp add: map_of_eq_None_iff)
    then show ?thesis using None by simp
  next
    case (Some v)
    then have "(k, v) \<in> set (rev kw)" by (auto dest: map_of_SomeD)
    moreover have "distinct (map fst (rev kw))" using assms by (simp add: rev_map [symmetric])
    ultimately have "map_of (rev kw) k = Some v" by (rule map_of_is_SomeI [rotated])
    then show ?thesis using Some by simp
  qed
qed

lemma getitem_kwargs_distinct:
  assumes "distinct (map fst kw)"
  shows "getitem (foldl (\<lambda>d (k, v). setitem d k v) d kw) k =
     (case map_of kw k of Some v \<Rightarrow> Some v | None \<Rightarrow> getitem d k)"
  by (simp add: getitem_kwargs map_of_rev_distinct [OF assms])

lemma priv_log_running:
  assumes "running self"
  shows "priv_log th a self g =
           Inr (self\<lparr>log_queue :=
                  (if full (log_queue self) then log_queue self
                   else (log_queue self)\<lparr>items := items (log_queue self) @ [a],
                          unfinished_tasks := Suc (unfinished_tasks (log_queue self))\<rparr>)\<rparr>,
                g\<lparr>ticks := Suc (ticks g),
                  heap := (heap g)(a := stamp self (clock g (ticks g)) th (heap g a))\<rparr>)"
  using assms by (simp add: priv_log_def utcnow_def put_nowait_def Let_def)

lemma priv_log_stopped:
  assumes "\<not> running self"
  shows "priv_log th a self g = Inr (self, g)"
  using assms by (simp add: priv_log_def)

lemma log_reserved:
  assumes "reserved_keywords kw \<noteq> []"
  shows "log upper th level message kw self g = Inl TypeError"
  using assms by (simp add: log_def)

lemma log_running:
  assumes "running self" and "reserved_keywords kw = []"
  shows "log upper th level message kw self g =
           Inr (self\<lparr>log_queue :=
                  (if full (log_queue self) then log_queue self
                   else (log_queue self)\<lparr>items := items (log_queue self) @ [next_addr g],
                          unfinished_tasks := Suc (unfinished_tasks (log_queue self))\<rparr>)\<rparr>,
                g\<lparr>next_addr := Suc (next_addr g), ticks := Suc (ticks g),
                  heap := (heap g)(next_addr g := stamp self (clock g (ticks g)) th
                     (foldl (\<lambda>d (k, v). setitem d k v)
                        [(''severity_text'', PStr (upper level)), (''body'', PStr message)] kw))\<rparr>)"
  using assms by (simp add: log_def new_dict_def priv_log_running)

lemma started_logger:
  "fst started = (init ''app.log'' 1000 True False)
     \<lparr>running := True, writer_thread := Some 0, log_handler := Some (StructuredLogHandler 0),
      log_queue := \<lparr>maxsize = 1000, items = [0], unfinished_tasks = 1\<rparr>\<rparr>"
  by (simp add: started_def start_def fresh_logger_def init_def boot_def main_thread_def
     priv_setup_logging_handler_def addHandler_def utcnow_def new_dict_def priv_log_def
     put_nowait_def full_def Queue_def py_print_def console_write_def stamp_def Let_def)

lemma started_globals:
  "next_addr (snd started) = 1" "ticks (snd started) = 2"
  "clock (snd started) = (\<lambda>_. ''2024-01-01T00:00:00'')"
  "threads (snd started) = [Spawned]"
  "sys_stdout (snd started) = Original Stdout"
  "dev_err (snd started) = \<lparr>flushed = [], pending = []\<rparr>"
  "disk (snd started) = (\<lambda>_. [])"
  "can_open (snd started) = (\<lambda>_. True)"
  by (simp_all add: started_def start_def fresh_logger_def init_def boot_def main_thread_def
     priv_setup_logging_handler_def addHandler_def utcnow_def new_dict_def priv_log_def
     put_nowait_def full_def Queue_def py_print_def console_write_def stamp_def Let_def)

lemma started_not_full: "\<not> full (log_queue (fst started))"
  by (simp add: started_logger full_def)

lemma started_items: "items (log_queue (fst started)) = [0]"
  by (simp add: started_logger)

lemma started_no_cell: "current_cell (fst started) = None"
  by (simp add: started_logger init_def)

lemma upper_info: "ascii_upper ''info'' = ''INFO''"
  by (simp add: ascii_upper_def char_of_def bit_Suc_0_iff)

lemma caller_entry_eq:
  "fst caller_entry = 1"
  "heap (snd caller_entry) (Suc 0) = [(''severity_text'', PStr ''INFO''), (''body'', PStr ''hi'')]"
  "heap (snd caller_entry) 0 = heap (snd started) 0"
  "ticks (snd caller_entry) = 2"
  "clock (snd caller_entry) = (\<lambda>_. ''2024-01-01T00:00:00'')"
  "next_addr (snd caller_entry) = 2"
  by (simp_all add: caller_entry_def new_dict_def started_globals)

lemma strip_Nil [simp]: "strip [] = []"
  by (simp add: strip_def lstrip_def rstrip_def)

lemma console_dev_write_flush:
  "console_dev c (console_flush c (console_write c t g))
     = \<lparr>flushed = flushed (console_dev c g) @ pending (console_dev c g) @ t, pending = []\<rparr>"
  by (cases c) (simp_all add: console_dev_def console_flush_def console_write_def flush_device_def)

lemma console_write_flush_fields:
  "next_addr (console_flush c (console_write c t g)) = next_addr g"
  "ticks (console_flush c (console_write c t g)) = ticks g"
  "clock (console_flush c (console_write c t g)) = clock g"
  "heap (console_flush c (console_write c t g)) = heap g"
  by (cases c; simp add: console_flush_def console_write_def)+

lemma started_capture_logger:
  "fst started_capture = (init ''app.log'' 1000 True True)
     \<lparr>running := True, writer_thread := Some 0, log_handler := Some (StructuredLogHandler 0),
      log_queue := \<lparr>maxsize = 1000, items = [0, 1], unfinished_tasks = 2\<rparr>\<rparr>"
  by (simp add: started_capture_def start_def capture_logger_def init_def boot_def main_thread_def
     priv_setup_logging_handler_def priv_setup_print_capture_def addHandler_def utcnow_def
     new_dict_def priv_log_def put_nowait_def full_def Queue_def py_print_def
     PrintCapture_write_def console_write_def console_flush_def flush_device_def
     stamp_def Let_def strip_def lstrip_def rstrip_def py_isspace_def nl_def)

lemma started_capture_globals:
  "next_addr (snd started_capture) = 2" "ticks (snd started_capture) = 4"
  "clock (snd started_capture) = (\<lambda>_. ''2024-01-01T00:00:00'')"
  "sys_stdout (snd started_capture) = PrintCapture Stdout ''stdout''"
  "sys_stderr (snd started_capture) = PrintCapture Stderr ''stderr''"
  "dev_out (snd started_capture)
     = \<lparr>flushed = ''Structured logging started: app.log'' @ nl, pending = []\<rparr>"
  by (simp_all add: started_capture_def start_def capture_logger_def init_def boot_def main_thread_def
     priv_setup_logging_handler_def priv_setup_print_capture_def addHandler_def utcnow_def
     new_dict_def priv_log_def put_nowait_def full_def Queue_def py_print_def
     PrintCapture_write_def console_write_def console_flush_def flush_device_def
     stamp_def Let_def strip_def lstrip_def rstrip_def py_isspace_def nl_def)

lemma started_capture_running: "running (fst started_capture)"
  by (simp add: started_capture_logger)

lemma started_capture_not_full: "\<not> full (log_queue (fst started_capture))"
  by (simp add: started_capture_logger full_def)

lemma started_capture_no_cell: "current_cell (fst started_capture) = None"
  by (simp add: started_capture_logger init_def)

lemma length_nl: "length nl = Suc 0"
  by (simp add: nl_def)

lemma strip_hello:
  "strip hello_line = ''hello''" "rstrip hello_line = ''hello''" "length hello_line = 6"
  "hello_line \<noteq> []"
  by (simp_all add: hello_line_def strip_def lstrip_def rstrip_def py_isspace_def nl_def)

lemma wrote_hello_record:
  "heap (snd wrote_hello) 2
     = [(''severity_text'', PStr ''INFO''), (''body'', PStr ''hello''),
        (''source'', PStr ''print''), (''stream'', PStr ''stdout''),
        (''timestamp'', PStr ''2024-01-01T00:00:00Z''), (''thread_id'', PInt 77),
        (''thread_name'', PStr ''MainThread'')]"
  "items (log_queue (fst wrote_hello)) = [0, 1, 2]"
  using started_capture_running started_capture_not_full
  by (simp_all add: wrote_hello_def started_capture_globals PrintCapture_write_def Let_def
        utcnow_def new_dict_def priv_log_running strip_hello console_write_flush_fields
        stamp_no_cell started_capture_no_cell main_thread_def)
     (simp_all add: started_capture_logger)

lemma stop_begin_running:
  assumes "running self"
  shows "\<exists>g'. stop_begin th self g =
           Inr (self\<lparr>log_queue :=
                  (if full (log_queue self) then log_queue self
                   else (log_queue self)\<lparr>items := items (log_queue self) @ [next_addr g],
                          unfinished_tasks := Suc (unfinished_tasks (log_queue self))\<rparr>),
                  running := False\<rparr>, g')
         \<and> heap g' = (heap g)(next_addr g := stamp self (clock g (Suc (ticks g))) th
               [(''severity_text'', PStr ''INFO''),
                (''body'', PStr ''Notebook logger stopped''),
                (''total_cells'', PInt (cell_count self)),
                (''timestamp'', PStr (clock g (ticks g) @ ''Z''))])
         \<and> next_addr g' = Suc (next_addr g) \<and> threads g' = threads g"
  using assms
  by (simp add: stop_begin_def utcnow_def new_dict_def priv_log_running Let_def
        split: option.splits)

lemma logged_hello_facts:
  "running (fst logged_hello)" "cell_count (fst logged_hello) = 0"
  "log_queue (fst logged_hello) = \<lparr>maxsize = 1000, items = [0, 1], unfinished_tasks = 2\<rparr>"
  "current_cell (fst logged_hello) = None"
  "next_addr (snd logged_hello) = 2" "ticks (snd logged_hello) = 3"
  "clock (snd logged_hello) = (\<lambda>_. ''2024-01-01T00:00:00'')"
  using started_running started_not_full
  by (simp_all add: logged_hello_def log_running reserved_keywords_def started_globals
        started_logger init_def)

lemma pre_run_cell_count:
  "\<exists>self' g'. priv_pre_run_cell th info self g = Inr (self', g')
      \<and> cell_count self' = cell_count self + 1"
proof (cases "priv_pre_run_cell th info self g")
  case (Inl e)
  then show ?thesis
    by (simp add: priv_pre_run_cell_def Let_def case_prod_beta split: if_splits)
next
  case (Inr r)
  obtain self' g' where r: "r = (self', g')" by (cases r)
  have "cell_count self' = cell_count self + 1"
    using Inr unfolding r priv_pre_run_cell_def Let_def
    by (auto simp: case_prod_beta queue_only_def split: if_splits dest!: priv_log_queue_only)
  then show ?thesis using Inr r by simp
qed

lemma start_logging_unset:
  assumes "getenv g LIVE_LOGS_FILE_PATH [] = []"
  shows "\<exists>inst' g'. start_logging th lf kw inst g = Inr (None, inst', g')
           \<and> threads g' = threads g
           \<and> (inst = None \<longrightarrow> inst' = None)
           \<and> (\<forall>l. inst = Some l \<longrightarrow> (\<exists>l'. inst' = Some l' \<and> queue_only l l'))"
proof (cases inst)
  case None
  then show ?thesis
    using assms
    by (simp add: start_logging_def Let_def console_write_def split: console.splits)
next
  case (Some l)
  obtain l' g' where p: "py_print ''Environment variable LIVE_LOGS_FILE_PATH not set. Logging not started.'' th l g = Inr (l', g')"
    by (cases "py_print ''Environment variable LIVE_LOGS_FILE_PATH not set. Logging not started.'' th l g") auto
  have "queue_only l l'" "log_effects g g'"
    by (rule py_print_queue_only [OF p] py_print_effects [OF p])+
  then show ?thesis
    using assms Some p by (simp add: start_logging_def Let_def log_effects_def)
qed

lemma start_logging_creates:
  assumes "getenv g LIVE_LOGS_FILE_PATH [] = p" "p \<noteq> []" "kw_other kw = []"
  shows "\<exists>l' g'. start_logging th lf kw None g = Inr (Some l', Some l', g')
           \<and> log_file l' = p \<and> running l' \<and> threads g' = threads g @ [Spawned]"
proof -
  obtain l where c: "construct p kw = Inr l" "log_file l = p" "\<not> running l"
    using assms(3) by (simp add: construct_def init_def)
  obtain l' g' where st: "start th l g = Inr (l', g')"
    using start_returns by blast
  have "running l'" "log_file l' = log_file l" "threads g' = threads g @ [Spawned]"
    using start_stopped_frame [OF c(3) st] by simp_all
  then show ?thesis
    using assms c st by (simp add: start_logging_def Let_def get_logger_def)
qed

lemma started_environ: "environ (snd started) = (\<lambda>_. None)"
  by (simp add: started_def start_def fresh_logger_def init_def boot_def main_thread_def
     priv_setup_logging_handler_def addHandler_def utcnow_def new_dict_def priv_log_def
     put_nowait_def full_def Queue_def py_print_def console_write_def stamp_def Let_def)

lemma getenv_examples:
  "getenv boot LIVE_LOGS_FILE_PATH [] = []"
  "getenv (snd started) LIVE_LOGS_FILE_PATH [] = []"
  "getenv env_boot LIVE_LOGS_FILE_PATH [] = ''/tmp/live.log''"
  by (simp_all add: getenv_def boot_def env_boot_def started_environ)

lemma example_threads: "threads boot = []" "threads env_boot = []"
  by (simp_all add: boot_def env_boot_def)

lemma threads_update_id:
  assumes "threads g ! i = t"
  shows "g\<lparr>threads := (threads g)[i := t]\<rparr> = g"
  using assms [symmetric] by simp

lemma writer_pass_failure:
  assumes "i < length (threads g)" "threads g ! i = Looping buf"
    and "items (log_queue self) = a # rest"
    and "outcome \<noteq> IO_ok \<or> dumps (heap g a) = None"
  shows "\<exists>buf'. writer_pass dumps outcome i self g
           = (self\<lparr>log_queue := (log_queue self)\<lparr>items := rest\<rparr>\<rparr>,
              g\<lparr>threads := (threads g)[i := Looping buf']\<rparr>)"
proof (cases "dumps (heap g a)")
  case None
  show ?thesis
    using assms None threads_update_id [OF assms(2)]
    by (auto simp: writer_pass_def empty_q_def get_timeout_def Let_def intro!: exI [of _ buf])
next
  case (Some line)
  from assms(4) Some have "outcome \<noteq> IO_ok" by simp
  then show ?thesis
  proof (cases outcome)
    case Write_fails
    then show ?thesis
      using assms Some threads_update_id [OF assms(2)]
      by (auto simp: writer_pass_def empty_q_def get_timeout_def Let_def intro!: exI [of _ buf])
  next
    case Flush_fails
    then show ?thesis
      using assms Some
      by (auto simp: writer_pass_def empty_q_def get_timeout_def Let_def)
  qed simp
qed

lemma writer_pass_ok:
  assumes "i < length (threads g)" "threads g ! i = Looping buf"
    and "items (log_queue self) = a # rest" and "dumps (heap g a) = Some line"
  shows "writer_pass dumps IO_ok i self g
           = (self\<lparr>log_queue := (log_queue self)
                  \<lparr>items := rest,
                   unfinished_tasks := unfinished_tasks (log_queue self) - 1\<rparr>\<rparr>,
              g\<lparr>disk := (disk g)(log_file self := disk g (log_file self) @ buf @ line @ nl),
                threads := (threads g)[i := Looping []]\<rparr>)"
  using assms
  by (cases "unfinished_tasks (log_queue self) = 0")
     (simp_all add: writer_pass_def empty_q_def get_timeout_def task_done_def Let_def)

lemma logged_hello_globals:
  "threads (snd logged_hello) = [Spawned]" "can_open (snd logged_hello) = (\<lambda>_. True)"
  "dev_err (snd logged_hello) = \<lparr>flushed = [], pending = []\<rparr>"
  "disk (snd logged_hello) = (\<lambda>_. [])"
  "log_file (fst logged_hello) = ''app.log''"
  using started_running
  by (simp_all add: logged_hello_def log_running reserved_keywords_def started_globals
        started_logger init_def)

lemma opened_eq: "opened = (snd logged_hello)\<lparr>threads := [Looping []]\<rparr>"
  by (simp add: opened_def writer_open_def logged_hello_globals)

lemma failed_pass_eq:
  "failed_pass = ((fst logged_hello)\<lparr>log_queue := \<lparr>maxsize = 1000, items = [1], unfinished_tasks = 2\<rparr>\<rparr>,
                  opened)"
  by (simp add: failed_pass_def writer_pass_def opened_eq logged_hello_facts empty_q_def
        get_timeout_def plain_dumps_def Let_def)

lemma pre_run_cell_started:
  "\<exists>self' g'. priv_pre_run_cell main_thread info (fst started) (snd started) = Inr (self', g')
      \<and> running self' \<and> include_cell_info self'
      \<and> current_cell self' = Some \<lparr>cell_number = 1, cell_id = info_cell_id info,
                                    start_time = ''2024-01-01T00:00:00''\<rparr>
      \<and> log_queue self' = \<lparr>maxsize = 1000, items = [0, 1], unfinished_tasks = 2\<rparr>
      \<and> next_addr g' = 2 \<and> ticks g' = 5 \<and> clock g' = (\<lambda>_. ''2024-01-01T00:00:00'')"
  by (simp add: priv_pre_run_cell_def utcnow_def new_dict_def priv_log_def put_nowait_def
        full_def started_logger started_globals init_def Let_def)

lemma in_cell_facts:
  "running (fst in_cell)" "include_cell_info (fst in_cell)"
  "current_cell (fst in_cell) = Some \<lparr>cell_number = 1, cell_id = PStr ''c1'',
                                       start_time = ''2024-01-01T00:00:00''\<rparr>"
  "log_queue (fst in_cell) = \<lparr>maxsize = 1000, items = [0, 1], unfinished_tasks = 2\<rparr>"
  "next_addr (snd in_cell) = 2" "ticks (snd in_cell) = 5"
  "clock (snd in_cell) = (\<lambda>_. ''2024-01-01T00:00:00'')"
  using pre_run_cell_started [of "\<lparr>info_cell_id = PStr ''c1'', raw_cell = Some ''x = 1''\<rparr>"]
  by (auto simp add: in_cell_def)

lemma in_unnamed_cell_facts:
  "running (fst in_unnamed_cell)" "include_cell_info (fst in_unnamed_cell)"
  "current_cell (fst in_unnamed_cell) = Some \<lparr>cell_number = 1, cell_id = PNone,
                                               start_time = ''2024-01-01T00:00:00''\<rparr>"
  "log_queue (fst in_unnamed_cell) = \<lparr>maxsize = 1000, items = [0, 1], unfinished_tasks = 2\<rparr>"
  "next_addr (snd in_unnamed_cell) = 2" "ticks (snd in_unnamed_cell) = 5"
  "clock (snd in_unnamed_cell) = (\<lambda>_. ''2024-01-01T00:00:00'')"
  using pre_run_cell_started [of "\<lparr>info_cell_id = PNone, raw_cell = None\<rparr>"]
  by (auto simp add: in_unnamed_cell_def)

lemma cell_entry_eq:
  "fst cell_entry = 2" "next_addr (snd cell_entry) = 3" "ticks (snd cell_entry) = 5"
  "clock (snd cell_entry) = (\<lambda>_. ''2024-01-01T00:00:00'')"
  "heap (snd cell_entry) 2
     = [(''cell_number'', PInt 99), (''cell_id'', PStr ''mine''), (''body'', PStr ''hi'')]"
  by (simp_all add: cell_entry_def new_dict_def in_cell_facts)

lemma unnamed_cell_entry_eq:
  "fst unnamed_cell_entry = 2" "next_addr (snd unnamed_cell_entry) = 3"
  "ticks (snd unnamed_cell_entry) = 5"
  "clock (snd unnamed_cell_entry) = (\<lambda>_. ''2024-01-01T00:00:00'')"
  "heap (snd unnamed_cell_entry) 2
     = [(''cell_number'', PInt 99), (''cell_id'', PStr ''mine''), (''body'', PStr ''hi'')]"
  by (simp_all add: unnamed_cell_entry_def new_dict_def in_unnamed_cell_facts)

lemma queue_ok_Queue [simp]: "queue_ok (Queue n)"
  by (simp add: queue_ok_def Queue_def)





























subsection \<open>\<^verbatim>\<open>start()\<close> on a running logger\<close>

text \<open>
  C1, as stated, fails: \<^verbatim>\<open>start()\<close> on a running logger raises nothing. On the state
  that \<^verbatim>\<open>start()\<close> has just produced, a second \<^verbatim>\<open>start()\<close> returns normally.
\<close>

theorem start_when_running_counterexample:
  "running (fst started) \<and> \<not> isl (start main_thread (fst started) (snd started))"
  using start_running_returns [of "fst started" main_thread "snd started"] started_running
  by auto

text \<open>
  C1, amended. On every running logger \<^verbatim>\<open>start()\<close> returns normally: it prints
  \<^verbatim>\<open>Logger already running\<close> through \<^verbatim>\<open>sys.stdout\<close>, spawns no thread, and leaves the
  logger running with the writer thread it had.
\<close>

theorem start_when_running:
  assumes "running self"
  shows "\<exists>self' g'. start th self g = Inr (self', g')
           \<and> running self' \<and> writer_thread self' = writer_thread self \<and> threads g' = threads g
           \<and> received (console_dev (stream_console (sys_stdout g)) g')
               = received (console_dev (stream_console (sys_stdout g)) g) @ ''Logger already running'' @ nl"
proof -
  obtain Q g' where "start th self g = Inr (self\<lparr>log_queue := Q\<rparr>, g')"
    "threads g' = threads g"
    "received (console_dev (stream_console (sys_stdout g)) g')
       = received (console_dev (stream_console (sys_stdout g)) g) @ ''Logger already running'' @ nl"
    using start_running_returns [OF assms, of th g] by blast
  then show ?thesis using assms by simp
qed

theorem start_when_running_witness:
  "running (fst started) \<and>
   (\<exists>self' g'. start main_thread (fst started) (snd started) = Inr (self', g')
      \<and> running self' \<and> threads g' = threads (snd started))"
  using start_when_running [of "fst started" main_thread "snd started"] started_running
  by auto

subsection \<open>Submission never blocks and drops the newest entry on a full queue\<close>

text \<open>
  C6. For every queue state, \<^verbatim>\<open>_log\<close> returns normally: no exception reaches the
  caller, nothing is written to either original stream, and when the queue is full the
  queue is left as it was, so the entry being submitted is the one dropped.
\<close>

theorem log_never_blocks:
  "\<exists>self' g'. priv_log th a self g = Inr (self', g') \<and>
     dev_out g' = dev_out g \<and> dev_err g' = dev_err g \<and>
     (full (log_queue self) \<longrightarrow> log_queue self' = log_queue self)"
  by (simp add: priv_log_def utcnow_def put_nowait_def Let_def split: prod.splits)

theorem log_never_blocks_witness:
  "full (log_queue full_logger) \<and>
   (\<exists>self' g'. priv_log main_thread 1 full_logger boot = Inr (self', g') \<and>
      log_queue self' = log_queue full_logger)"
  using log_never_blocks [of main_thread 1 full_logger boot]
  by (auto simp: full_logger_def init_def full_def)

subsection \<open>\<^verbatim>\<open>start()\<close> when the file cannot be opened\<close>

text \<open>
  C2, as stated, fails: \<^verbatim>\<open>start()\<close> does not open the file, the thread it spawns does.
  In a process where the file cannot be opened, \<^verbatim>\<open>start()\<close> on a new logger returns
  normally.
\<close>

theorem start_unopenable_file_counterexample:
  "\<not> can_open locked_boot (log_file fresh_logger)
   \<and> \<not> isl (start main_thread fresh_logger locked_boot)"
  using start_returns [of main_thread fresh_logger locked_boot]
  by (auto simp: locked_boot_def)

text \<open>
  C2, amended. When the target file cannot be opened, \<^verbatim>\<open>start()\<close> on a stopped logger
  still returns normally, with the logger running and one more thread spawned; the failure
  of \<^verbatim>\<open>open\<close> occurs afterwards in that thread, which ends with the error.
\<close>

theorem start_unopenable_file:
  assumes "\<not> running self" and "\<not> can_open g (log_file self)"
  shows "\<exists>self' g'. start th self g = Inr (self', g')
           \<and> running self' \<and> threads g' = threads g @ [Spawned]
           \<and> threads (writer_open (length (threads g)) self' g') = threads g @ [Died OSError]"
proof -
  obtain self' g' where st: "start th self g = Inr (self', g')"
    using start_returns by blast
  have fr: "running self'" "log_file self' = log_file self"
    "threads g' = threads g @ [Spawned]" "can_open g' = can_open g"
    using start_stopped_frame [OF assms(1) st] by simp_all
  have "threads (writer_open (length (threads g)) self' g') = threads g @ [Died OSError]"
    using writer_open_spawned [OF fr(3), of self'] fr assms(2) by simp
  then show ?thesis using st fr by simp
qed

theorem start_unopenable_file_witness:
  "\<not> running fresh_logger \<and> \<not> can_open locked_boot (log_file fresh_logger) \<and>
   (\<exists>self' g'. start main_thread fresh_logger locked_boot = Inr (self', g')
      \<and> running self'
      \<and> threads (writer_open 0 self' g') = [Died OSError])"
  using start_unopenable_file [of fresh_logger locked_boot main_thread]
  by (auto simp: fresh_logger_def init_def locked_boot_def boot_def)

subsection \<open>What \<^verbatim>\<open>_log\<close> stamps on an entry\<close>

text \<open>
  C4, as stated, fails: \<^verbatim>\<open>_log\<close> stamps no \<^verbatim>\<open>severity\<close> and no \<^verbatim>\<open>body\<close>. After
  \<^verbatim>\<open>logger.log("info", "hello", body="other")\<close> on the started logger, the entry queued
  has no key \<^verbatim>\<open>severity\<close> (the level is under \<^verbatim>\<open>severity_text\<close>), and its \<^verbatim>\<open>body\<close>
  is the keyword argument of the caller.
\<close>

theorem log_stamps_entry_counterexample:
  "running (fst started)
   \<and> items (log_queue (fst logged_hello)) = [0, 1]
   \<and> getitem (heap (snd logged_hello) 1) ''severity'' = None
   \<and> getitem (heap (snd logged_hello) 1) ''body'' = Some (PStr ''other'')"
  using started_running started_not_full
  by (simp add: logged_hello_def log_running reserved_keywords_def started_globals stamp_no_cell
        started_no_cell getitem_setitem)
     (simp add: getitem_def started_logger)


text \<open>
  C4, amended. On a running logger, for every input mapping, \<^verbatim>\<open>_log\<close> stamps
  \<^verbatim>\<open>timestamp\<close>, \<^verbatim>\<open>thread_id\<close> and \<^verbatim>\<open>thread_name\<close> from the clock and the calling
  thread, over any value the caller gave for these three keys. When \<^verbatim>\<open>include_cell_info\<close>
  is on and a cell is current, it also overwrites \<^verbatim>\<open>cell_number\<close> with the number of
  that cell and, if the id of that cell is truthy, \<^verbatim>\<open>cell_id\<close> with that id; in every
  other case \<^verbatim>\<open>cell_number\<close> and \<^verbatim>\<open>cell_id\<close> keep what the caller gave (or stay
  absent). Every other key keeps the caller's value. The entry goes to the back of the
  queue unless the queue is full.

  A call \<^verbatim>\<open>log(level, message, **kwargs)\<close> with a keyword named \<^verbatim>\<open>self\<close>, \<^verbatim>\<open>level\<close> or
  \<^verbatim>\<open>message\<close> raises \<open>TypeError\<close>. For any other keywords the same stamping holds of
  the dictionary the call builds, in which \<^verbatim>\<open>severity_text\<close> is the upper-cased level
  and \<^verbatim>\<open>body\<close> the message unless a keyword argument of that name replaces them.
\<close>

theorem log_stamps_entry:
  assumes "running self"
  shows "(\<exists>self' g'. priv_log th a self g = Inr (self', g')
      \<and> getitem (heap g' a) ''timestamp'' = Some (PStr (clock g (ticks g) @ ''Z''))
      \<and> getitem (heap g' a) ''thread_id'' = Some (PInt (ident th))
      \<and> getitem (heap g' a) ''thread_name'' = Some (PStr (tname th))
      \<and> getitem (heap g' a) ''cell_number'' =
           (case current_cell self of
              Some c \<Rightarrow> if include_cell_info self then Some (PInt (cell_number c))
                        else getitem (heap g a) ''cell_number''
            | None \<Rightarrow> getitem (heap g a) ''cell_number'')
      \<and> getitem (heap g' a) ''cell_id'' =
           (case current_cell self of
              Some c \<Rightarrow> if include_cell_info self \<and> truthy (cell_id c) then Some (cell_id c)
                        else getitem (heap g a) ''cell_id''
            | None \<Rightarrow> getitem (heap g a) ''cell_id'')
      \<and> (\<forall>k. k \<notin> {''timestamp'', ''thread_id'', ''thread_name'', ''cell_number'', ''cell_id''}
             \<longrightarrow> getitem (heap g' a) k = getitem (heap g a) k)
      \<and> (\<not> full (log_queue self) \<longrightarrow> items (log_queue self') = items (log_queue self) @ [a]))
   \<and> (reserved_keywords kw \<noteq> [] \<longrightarrow> log upper th level message kw self g = Inl TypeError)
   \<and> (reserved_keywords kw = [] \<longrightarrow>
       (\<exists>self' g'. log upper th level message kw self g = Inr (self', g')
          \<and> getitem (heap g' (next_addr g)) ''timestamp'' = Some (PStr (clock g (ticks g) @ ''Z''))
          \<and> getitem (heap g' (next_addr g)) ''thread_id'' = Some (PInt (ident th))
          \<and> getitem (heap g' (next_addr g)) ''thread_name'' = Some (PStr (tname th))
          \<and> (distinct (map fst kw) \<longrightarrow>
               getitem (heap g' (next_addr g)) ''cell_number'' =
                 (case current_cell self of
                    Some c \<Rightarrow> if include_cell_info self then Some (PInt (cell_number c))
                              else map_of kw ''cell_number''
                  | None \<Rightarrow> map_of kw ''cell_number'')
               \<and> getitem (heap g' (next_addr g)) ''cell_id'' =
                 (case current_cell self of
                    Some c \<Rightarrow> if include_cell_info self \<and> truthy (cell_id c) then Some (cell_id c)
                              else map_of kw ''cell_id''
                  | None \<Rightarrow> map_of kw ''cell_id'')
               \<and> (\<forall>k v. (k, v) \<in> set kw
                     \<and> k \<notin> {''timestamp'', ''thread_id'', ''thread_name'', ''cell_number'', ''cell_id''}
                   \<longrightarrow> getitem (heap g' (next_addr g)) k = Some v))
          \<and> (''severity_text'' \<notin> fst ` set kw
                \<longrightarrow> getitem (heap g' (next_addr g)) ''severity_text'' = Some (PStr (upper level)))
          \<and> (''body'' \<notin> fst ` set kw
                \<longrightarrow> getitem (heap g' (next_addr g)) ''body'' = Some (PStr message))
          \<and> (\<not> full (log_queue self)
                \<longrightarrow> items (log_queue self') = items (log_queue self) @ [next_addr g])))"
proof (intro conjI impI)
  show "\<exists>self' g'. priv_log th a self g = Inr (self', g')
      \<and> getitem (heap g' a) ''timestamp'' = Some (PStr (clock g (ticks g) @ ''Z''))
      \<and> getitem (heap g' a) ''thread_id'' = Some (PInt (ident th))
      \<and> getitem (heap g' a) ''thread_name'' = Some (PStr (tname th))
      \<and> getitem (heap g' a) ''cell_number'' =
           (case current_cell self of
              Some c \<Rightarrow> if include_cell_info self then Some (PInt (cell_number c))
                        else getitem (heap g a) ''cell_number''
            | None \<Rightarrow> getitem (heap g a) ''cell_number'')
      \<and> getitem (heap g' a) ''cell_id'' =
           (case current_cell self of
              Some c \<Rightarrow> if include_cell_info self \<and> truthy (cell_id c) then Some (cell_id c)
                        else getitem (heap g a) ''cell_id''
            | None \<Rightarrow> getitem (heap g a) ''cell_id'')
      \<and> (\<forall>k. k \<notin> {''timestamp'', ''thread_id'', ''thread_name'', ''cell_number'', ''cell_id''}
             \<longrightarrow> getitem (heap g' a) k = getitem (heap g a) k)
      \<and> (\<not> full (log_queue self) \<longrightarrow> items (log_queue self') = items (log_queue self) @ [a])"
    unfolding priv_log_running [OF assms]
    by (simp add: getitem_stamp_timestamp getitem_stamp_thread_id getitem_stamp_thread_name
          getitem_stamp_cell_number getitem_stamp_cell_id getitem_stamp_other)
next
  assume "reserved_keywords kw \<noteq> []"
  then show "log upper th level message kw self g = Inl TypeError"
    by (rule log_reserved)
next
  assume binds: "reserved_keywords kw = []"
  let ?d = "foldl (\<lambda>d (k, v). setitem d k v)
              [(''severity_text'', PStr (upper level)), (''body'', PStr message)] kw"
  have kw: "getitem ?d k = Some v" if "distinct (map fst kw)" "(k, v) \<in> set kw" for k v
  proof -
    have "map_of (rev kw) k = Some v"
      using that by (simp add: map_of_rev_distinct)
    then show ?thesis by (simp add: getitem_kwargs)
  qed
  have nokw: "getitem ?d k = map_of [(''severity_text'', PStr (upper level)), (''body'', PStr message)] k"
    if "k \<notin> fst ` set kw" for k
  proof -
    have "map_of (rev kw) k = None" using that by (simp add: map_of_eq_None_iff)
    then show ?thesis by (simp add: getitem_kwargs) (simp add: getitem_def)
  qed
  have cells: "getitem ?d ''cell_number'' = map_of kw ''cell_number''"
    "getitem ?d ''cell_id'' = map_of kw ''cell_id''" if "distinct (map fst kw)"
  proof -
    have base:
      "getitem [(''severity_text'', PStr (upper level)), (''body'', PStr message)] ''cell_number'' = None"
      "getitem [(''severity_text'', PStr (upper level)), (''body'', PStr message)] ''cell_id'' = None"
      by (simp_all add: getitem_def)
    show "getitem ?d ''cell_number'' = map_of kw ''cell_number''"
      by (simp add: getitem_kwargs_distinct [OF that] base split: option.splits)
    show "getitem ?d ''cell_id'' = map_of kw ''cell_id''"
      by (simp add: getitem_kwargs_distinct [OF that] base split: option.splits)
  qed
  show "\<exists>self' g'. log upper th level message kw self g = Inr (self', g')
          \<and> getitem (heap g' (next_addr g)) ''timestamp'' = Some (PStr (clock g (ticks g) @ ''Z''))
          \<and> getitem (heap g' (next_addr g)) ''thread_id'' = Some (PInt (ident th))
          \<and> getitem (heap g' (next_addr g)) ''thread_name'' = Some (PStr (tname th))
          \<and> (distinct (map fst kw) \<longrightarrow>
               getitem (heap g' (next_addr g)) ''cell_number'' =
                 (case current_cell self of
                    Some c \<Rightarrow> if include_cell_info self then Some (PInt (cell_number c))
                              else map_of kw ''cell_number''
                  | None \<Rightarrow> map_of kw ''cell_number'')
               \<and> getitem (heap g' (next_addr g)) ''cell_id'' =
                 (case current_cell self of
                    Some c \<Rightarrow> if include_cell_info self \<and> truthy (cell_id c) then Some (cell_id c)
                              else map_of kw ''cell_id''
                  | None \<Rightarrow> map_of kw ''cell_id'')
               \<and> (\<forall>k v. (k, v) \<in> set kw
                     \<and> k \<notin> {''timestamp'', ''thread_id'', ''thread_name'', ''cell_number'', ''cell_id''}
                   \<longrightarrow> getitem (heap g' (next_addr g)) k = Some v))
          \<and> (''severity_text'' \<notin> fst ` set kw
                \<longrightarrow> getitem (heap g' (next_addr g)) ''severity_text'' = Some (PStr (upper level)))
          \<and> (''body'' \<notin> fst ` set kw
                \<longrightarrow> getitem (heap g' (next_addr g)) ''body'' = Some (PStr message))
          \<and> (\<not> full (log_queue self)
                \<longrightarrow> items (log_queue self') = items (log_queue self) @ [next_addr g])"
    unfolding log_running [OF assms binds]
    by (simp add: getitem_stamp_timestamp getitem_stamp_thread_id getitem_stamp_thread_name
          getitem_stamp_cell_number getitem_stamp_cell_id getitem_stamp_other kw nokw cells
          split: option.splits)
qed

theorem log_stamps_entry_witness:
  "running (fst in_cell) \<and> \<not> full (log_queue (fst in_cell))
   \<and> (\<exists>self' g'. priv_log main_thread 2 (fst in_cell) (snd cell_entry) = Inr (self', g')
        \<and> getitem (heap g' 2) ''thread_id'' = Some (PInt 77)
        \<and> getitem (heap g' 2) ''cell_number'' = Some (PInt 1)
        \<and> getitem (heap g' 2) ''cell_id'' = Some (PStr ''c1'')
        \<and> getitem (heap g' 2) ''body'' = Some (PStr ''hi'')
        \<and> items (log_queue self') = [0, 1, 2])
   \<and> reserved_keywords [(''user'', PStr ''ann'')] = []
   \<and> distinct (map fst [(''user'', PStr ''ann'')])
   \<and> (\<exists>self' g'. log ascii_upper main_thread ''info'' ''hello'' [(''user'', PStr ''ann'')]
                     (fst in_cell) (snd cell_entry) = Inr (self', g')
        \<and> getitem (heap g' 3) ''user'' = Some (PStr ''ann'')
        \<and> getitem (heap g' 3) ''severity_text'' = Some (PStr ''INFO'')
        \<and> getitem (heap g' 3) ''body'' = Some (PStr ''hello'')
        \<and> getitem (heap g' 3) ''cell_number'' = Some (PInt 1)
        \<and> items (log_queue self') = [0, 1, 3])
   \<and> running (fst in_unnamed_cell)
   \<and> (\<exists>self' g'. priv_log main_thread 2 (fst in_unnamed_cell) (snd unnamed_cell_entry)
                     = Inr (self', g')
        \<and> getitem (heap g' 2) ''cell_number'' = Some (PInt 1)
        \<and> getitem (heap g' 2) ''cell_id'' = Some (PStr ''mine''))
   \<and> reserved_keywords [(''level'', PStr ''warn'')] \<noteq> []
   \<and> log ascii_upper main_thread ''info'' ''hello'' [(''level'', PStr ''warn'')]
        (fst in_unnamed_cell) (snd unnamed_cell_entry) = Inl TypeError"
  using log_stamps_entry [of "fst in_cell" main_thread 2 "snd cell_entry"
      "[(''user'', PStr ''ann'')]" ascii_upper "''info''" "''hello''"]
    log_stamps_entry [of "fst in_unnamed_cell" main_thread 2 "snd unnamed_cell_entry"
      "[(''level'', PStr ''warn'')]" ascii_upper "''info''" "''hello''"]
  by (auto simp add: in_cell_facts in_unnamed_cell_facts cell_entry_eq unnamed_cell_entry_eq
        reserved_keywords_def full_def main_thread_def upper_info getitem_def)

subsection \<open>\<^verbatim>\<open>_log\<close> writes into the caller's dictionary\<close>

text \<open>
  C5, as stated, fails: \<^verbatim>\<open>_log\<close> assigns to the keys of the dictionary it is given. A
  caller's dictionary with two keys holds five after the caller has submitted it, and the
  queue holds that same object.
\<close>

theorem log_mutates_in_place_counterexample:
  "heap (snd caller_entry) (fst caller_entry)
     = [(''severity_text'', PStr ''INFO''), (''body'', PStr ''hi'')]
   \<and> heap (snd submitted_entry) (fst caller_entry)
     = [(''severity_text'', PStr ''INFO''), (''body'', PStr ''hi''),
        (''timestamp'', PStr ''2024-01-01T00:00:00Z''), (''thread_id'', PInt 77),
        (''thread_name'', PStr ''MainThread'')]
   \<and> items (log_queue (fst submitted_entry)) = [0, fst caller_entry]"
  using started_running started_not_full
  by (simp add: submitted_entry_def priv_log_running caller_entry_eq stamp_no_cell
        started_no_cell main_thread_def started_items)


text \<open>
  C5, amended. \<^verbatim>\<open>_log\<close> allocates nothing and changes no dictionary but the one it is
  given. On a running logger it writes into that dictionary in place: \<^verbatim>\<open>timestamp\<close>,
  \<^verbatim>\<open>thread_id\<close> and \<^verbatim>\<open>thread_name\<close> always; \<^verbatim>\<open>cell_number\<close> when
  \<^verbatim>\<open>include_cell_info\<close> is on and a cell is current, and \<^verbatim>\<open>cell_id\<close> when moreover
  the id of that cell is truthy; no other key of the dictionary changes. The queue then
  holds that same object (unless the queue is full). On a stopped logger \<^verbatim>\<open>_log\<close>
  changes nothing. \<^verbatim>\<open>log(level, message, **kwargs)\<close> either raises \<open>TypeError\<close> at the
  call (a keyword named \<^verbatim>\<open>self\<close>, \<^verbatim>\<open>level\<close> or \<^verbatim>\<open>message\<close>) or builds a new
  dictionary and leaves every dictionary that existed before the call as it was.
\<close>

theorem log_mutates_in_place:
  "(\<exists>self' g'. priv_log th a self g = Inr (self', g')
      \<and> next_addr g' = next_addr g
      \<and> (\<forall>b. b \<noteq> a \<longrightarrow> heap g' b = heap g b)
      \<and> (running self \<longrightarrow>
            getitem (heap g' a) ''timestamp'' = Some (PStr (clock g (ticks g) @ ''Z''))
            \<and> getitem (heap g' a) ''thread_id'' = Some (PInt (ident th))
            \<and> getitem (heap g' a) ''thread_name'' = Some (PStr (tname th))
            \<and> getitem (heap g' a) ''cell_number'' =
                 (case current_cell self of
                    Some c \<Rightarrow> if include_cell_info self then Some (PInt (cell_number c))
                              else getitem (heap g a) ''cell_number''
                  | None \<Rightarrow> getitem (heap g a) ''cell_number'')
            \<and> getitem (heap g' a) ''cell_id'' =
                 (case current_cell self of
                    Some c \<Rightarrow> if include_cell_info self \<and> truthy (cell_id c) then Some (cell_id c)
                              else getitem (heap g a) ''cell_id''
                  | None \<Rightarrow> getitem (heap g a) ''cell_id'')
            \<and> (\<forall>k. k \<notin> {''timestamp'', ''thread_id'', ''thread_name'', ''cell_number'', ''cell_id''}
                   \<longrightarrow> getitem (heap g' a) k = getitem (heap g a) k)
            \<and> (\<not> full (log_queue self)
                 \<longrightarrow> items (log_queue self') = items (log_queue self) @ [a]))
      \<and> (\<not> running self \<longrightarrow> heap g' = heap g \<and> self' = self))
   \<and> (reserved_keywords kw \<noteq> [] \<longrightarrow> log upper th level message kw self g = Inl TypeError)
   \<and> (reserved_keywords kw = [] \<longrightarrow>
        (\<exists>self' g'. log upper th level message kw self g = Inr (self', g')
           \<and> (\<forall>b. b \<noteq> next_addr g \<longrightarrow> heap g' b = heap g b)))"
proof (intro conjI impI)
  show "\<exists>self' g'. priv_log th a self g = Inr (self', g')
      \<and> next_addr g' = next_addr g
      \<and> (\<forall>b. b \<noteq> a \<longrightarrow> heap g' b = heap g b)
      \<and> (running self \<longrightarrow>
            getitem (heap g' a) ''timestamp'' = Some (PStr (clock g (ticks g) @ ''Z''))
            \<and> getitem (heap g' a) ''thread_id'' = Some (PInt (ident th))
            \<and> getitem (heap g' a) ''thread_name'' = Some (PStr (tname th))
            \<and> getitem (heap g' a) ''cell_number'' =
                 (case current_cell self of
                    Some c \<Rightarrow> if include_cell_info self then Some (PInt (cell_number c))
                              else getitem (heap g a) ''cell_number''
                  | None \<Rightarrow> getitem (heap g a) ''cell_number'')
            \<and> getitem (heap g' a) ''cell_id'' =
                 (case current_cell self of
                    Some c \<Rightarrow> if include_cell_info self \<and> truthy (cell_id c) then Some (cell_id c)
                              else getitem (heap g a) ''cell_id''
                  | None \<Rightarrow> getitem (heap g a) ''cell_id'')
            \<and> (\<forall>k. k \<notin> {''timestamp'', ''thread_id'', ''thread_name'', ''cell_number'', ''cell_id''}
                   \<longrightarrow> getitem (heap g' a) k = getitem (heap g a) k)
            \<and> (\<not> full (log_queue self)
                 \<longrightarrow> items (log_queue self') = items (log_queue self) @ [a]))
      \<and> (\<not> running self \<longrightarrow> heap g' = heap g \<and> self' = self)"
  proof (cases "running self")
    case True
    show ?thesis
      unfolding priv_log_running [OF True]
      using True
      by (simp add: getitem_stamp_timestamp getitem_stamp_thread_id getitem_stamp_thread_name
            getitem_stamp_cell_number getitem_stamp_cell_id getitem_stamp_other)
  next
    case False
    show ?thesis
      unfolding priv_log_stopped [OF False] using False by simp
  qed
next
  assume "reserved_keywords kw \<noteq> []"
  then show "log upper th level message kw self g = Inl TypeError"
    by (rule log_reserved)
next
  assume binds: "reserved_keywords kw = []"
  show "\<exists>self' g'. log upper th level message kw self g = Inr (self', g')
           \<and> (\<forall>b. b \<noteq> next_addr g \<longrightarrow> heap g' b = heap g b)"
  proof (cases "running self")
    case True
    show ?thesis
      unfolding log_running [OF True binds] by simp
  next
    case False
    show ?thesis
      using False binds by (simp add: log_def new_dict_def priv_log_stopped)
  qed
qed

theorem log_mutates_in_place_witness:
  "running (fst in_unnamed_cell) \<and> \<not> full (log_queue (fst in_unnamed_cell)) \<and> (0::nat) \<noteq> 2
   \<and> (\<exists>self' g'. priv_log main_thread 2 (fst in_unnamed_cell) (snd unnamed_cell_entry)
                     = Inr (self', g')
        \<and> next_addr g' = 3
        \<and> heap g' 0 = heap (snd unnamed_cell_entry) 0
        \<and> getitem (heap g' 2) ''timestamp'' = Some (PStr ''2024-01-01T00:00:00Z'')
        \<and> getitem (heap g' 2) ''thread_id'' = Some (PInt 77)
        \<and> getitem (heap g' 2) ''thread_name'' = Some (PStr ''MainThread'')
        \<and> getitem (heap g' 2) ''cell_number'' = Some (PInt 1)
        \<and> getitem (heap g' 2) ''cell_id'' = Some (PStr ''mine'')
        \<and> getitem (heap g' 2) ''body'' = Some (PStr ''hi'')
        \<and> items (log_queue self') = [0, 1, 2])
   \<and> reserved_keywords [] = []
   \<and> (\<exists>self' g'. log ascii_upper main_thread ''info'' ''hello'' []
                     (fst in_unnamed_cell) (snd unnamed_cell_entry) = Inr (self', g')
        \<and> heap g' 2 = heap (snd unnamed_cell_entry) 2)
   \<and> \<not> running fresh_logger
   \<and> (\<exists>self' g'. priv_log main_thread 2 fresh_logger (snd unnamed_cell_entry) = Inr (self', g')
        \<and> heap g' = heap (snd unnamed_cell_entry) \<and> self' = fresh_logger)
   \<and> reserved_keywords [(''message'', PStr ''again'')] \<noteq> []
   \<and> log ascii_upper main_thread ''info'' ''hello'' [(''message'', PStr ''again'')]
        fresh_logger (snd unnamed_cell_entry) = Inl TypeError"
  using log_mutates_in_place [of main_thread 2 "fst in_unnamed_cell" "snd unnamed_cell_entry"
      "[]" ascii_upper "''info''" "''hello''"]
    log_mutates_in_place [of main_thread 2 fresh_logger "snd unnamed_cell_entry"
      "[(''message'', PStr ''again'')]" ascii_upper "''info''" "''hello''"]
  by (auto simp add: in_unnamed_cell_facts unnamed_cell_entry_eq reserved_keywords_def full_def
        main_thread_def getitem_def fresh_logger_def init_def)

subsection \<open>Writes to a captured stream\<close>

text \<open>
  C7, as stated, fails. With stream capture on, writing \<^verbatim>\<open>"hello\n"\<close> to
  \<^verbatim>\<open>sys.stdout\<close> queues one entry, but its \<^verbatim>\<open>source\<close> is \<^verbatim>\<open>"print"\<close>, and it has
  no key \<^verbatim>\<open>stream_name\<close> and no key \<^verbatim>\<open>severity\<close>.
\<close>

theorem capture_write_counterexample:
  "running (fst started_capture)
   \<and> sys_stdout (snd started_capture) = PrintCapture Stdout ''stdout''
   \<and> items (log_queue (fst started_capture)) = [0, 1]
   \<and> items (log_queue (fst wrote_hello)) = [0, 1, 2]
   \<and> getitem (heap (snd wrote_hello) 2) ''source'' = Some (PStr ''print'')
   \<and> getitem (heap (snd wrote_hello) 2) ''stream_name'' = None
   \<and> getitem (heap (snd wrote_hello) 2) ''severity'' = None"
  by (simp add: wrote_hello_record started_capture_running started_capture_globals getitem_def)
     (simp add: started_capture_logger)


text \<open>
  C7, amended. Every \<^verbatim>\<open>write(text)\<close> on a capture object returns \<^verbatim>\<open>len(text)\<close> after
  forwarding the text verbatim to the original stream and flushing it. When the logger is
  running, the text is not blank after \<^verbatim>\<open>strip()\<close> and the queue is not full, exactly one
  entry is queued, with \<^verbatim>\<open>body\<close> the text without its trailing whitespace
  (\<^verbatim>\<open>rstrip()\<close>), \<^verbatim>\<open>severity_text\<close> \<^verbatim>\<open>"ERROR"\<close> for the capture object named
  \<^verbatim>\<open>"stderr"\<close> and \<^verbatim>\<open>"INFO"\<close> otherwise, \<^verbatim>\<open>source\<close> \<^verbatim>\<open>"print"\<close> and \<^verbatim>\<open>stream\<close>
  the capture object's name; otherwise the queue is left as it was.
\<close>

theorem capture_write:
  "\<exists>self' g'. PrintCapture_write c name t th self g = Inr (length t, self', g')
     \<and> console_dev c g'
         = \<lparr>flushed = flushed (console_dev c g) @ pending (console_dev c g) @ t, pending = []\<rparr>
     \<and> (running self \<and> strip t \<noteq> [] \<and> \<not> full (log_queue self) \<longrightarrow>
           items (log_queue self') = items (log_queue self) @ [next_addr g]
           \<and> getitem (heap g' (next_addr g)) ''body'' = Some (PStr (rstrip t))
           \<and> getitem (heap g' (next_addr g)) ''severity_text''
               = Some (PStr (if name = ''stderr'' then ''ERROR'' else ''INFO''))
           \<and> getitem (heap g' (next_addr g)) ''source'' = Some (PStr ''print'')
           \<and> getitem (heap g' (next_addr g)) ''stream'' = Some (PStr name))
     \<and> (\<not> running self \<or> strip t = [] \<or> full (log_queue self) \<longrightarrow>
           items (log_queue self') = items (log_queue self))"
proof (cases "strip t = []")
  case True
  then show ?thesis
    by (simp add: PrintCapture_write_def Let_def console_dev_write_flush)
next
  case False
  then have t: "t \<noteq> []" by auto
  let ?g1 = "console_flush c (console_write c t g)"
  have dev: "console_dev c (g'\<lparr>ticks := T, heap := H, next_addr := N\<rparr>) = console_dev c g'" for g' T H N
    by (cases c) (simp_all add: console_dev_def)
  show ?thesis
  proof (cases "running self")
    case stopped: False
    then show ?thesis
      using False t
      by (simp add: PrintCapture_write_def Let_def utcnow_def new_dict_def priv_log_stopped
            console_dev_write_flush dev console_dev_def split: console.splits)
         (cases c; simp add: console_flush_def console_write_def flush_device_def)
  next
    case True
    then show ?thesis
      using False t
      by (simp add: PrintCapture_write_def Let_def utcnow_def new_dict_def priv_log_running
            console_write_flush_fields getitem_stamp_other)
         (cases c; simp add: getitem_def console_dev_def console_flush_def console_write_def
            flush_device_def)
  qed
qed

theorem capture_write_witness:
  "running (fst started_capture) \<and> strip hello_line \<noteq> []
   \<and> \<not> full (log_queue (fst started_capture))
   \<and> (\<exists>self' g'. PrintCapture_write Stdout ''stdout'' hello_line main_thread
                     (fst started_capture) (snd started_capture) = Inr (6, self', g')
        \<and> flushed (console_dev Stdout g')
            = ''Structured logging started: app.log'' @ nl @ hello_line
        \<and> items (log_queue self') = [0, 1, 2]
        \<and> getitem (heap g' 2) ''body'' = Some (PStr ''hello'')
        \<and> getitem (heap g' 2) ''severity_text'' = Some (PStr ''INFO'')
        \<and> getitem (heap g' 2) ''stream'' = Some (PStr ''stdout''))
   \<and> strip nl = []
   \<and> (\<exists>self' g'. PrintCapture_write Stdout ''stdout'' nl main_thread
                     (fst started_capture) (snd started_capture) = Inr (1, self', g')
        \<and> items (log_queue self') = [0, 1])"
  using capture_write [of Stdout "''stdout''" hello_line main_thread
          "fst started_capture" "snd started_capture"]
        capture_write [of Stdout "''stdout''" nl main_thread
          "fst started_capture" "snd started_capture"]
        started_capture_running started_capture_not_full
  by (auto simp add: strip_hello strip_nl length_nl started_capture_globals console_dev_def
        started_capture_logger)

subsection \<open>The shutdown record\<close>

text \<open>
  C9, as stated, fails. The logger that was started and then given one manual log call has
  accepted two records; the shutdown record that \<^verbatim>\<open>stop()\<close> then queues carries
  \<^verbatim>\<open>total_cells\<close> = 0 and no other count.
\<close>

theorem shutdown_record_counterexample:
  "running (fst logged_hello)
   \<and> items (log_queue (fst logged_hello)) = [0, 1]
   \<and> unfinished_tasks (log_queue (fst logged_hello)) = 2
   \<and> items (log_queue (fst stopping_hello)) = [0, 1, 2]
   \<and> heap (snd stopping_hello) 2
       = [(''severity_text'', PStr ''INFO''), (''body'', PStr ''Notebook logger stopped''),
          (''total_cells'', PInt 0), (''timestamp'', PStr ''2024-01-01T00:00:00Z''),
          (''thread_id'', PInt 77), (''thread_name'', PStr ''MainThread'')]"
proof -
  have r: "running (fst logged_hello)" by (rule logged_hello_facts)
  obtain g' where sb: "stop_begin main_thread (fst logged_hello) (snd logged_hello) =
           Inr ((fst logged_hello)\<lparr>log_queue :=
                  (if full (log_queue (fst logged_hello)) then log_queue (fst logged_hello)
                   else (log_queue (fst logged_hello))\<lparr>items := items (log_queue (fst logged_hello)) @ [next_addr (snd logged_hello)],
                          unfinished_tasks := Suc (unfinished_tasks (log_queue (fst logged_hello)))\<rparr>),
                  running := False\<rparr>, g')"
    and h: "heap g' = (heap (snd logged_hello))(next_addr (snd logged_hello) :=
               stamp (fst logged_hello) (clock (snd logged_hello) (Suc (ticks (snd logged_hello)))) main_thread
               [(''severity_text'', PStr ''INFO''),
                (''body'', PStr ''Notebook logger stopped''),
                (''total_cells'', PInt (cell_count (fst logged_hello))),
                (''timestamp'', PStr (clock (snd logged_hello) (ticks (snd logged_hello)) @ ''Z''))])"
    using stop_begin_running [OF r, of main_thread "snd logged_hello"] by blast
  show ?thesis
    by (simp add: stopping_hello_def sb h logged_hello_facts full_def stamp_no_cell)
       (simp add: main_thread_def)
qed


text \<open>
  C9, amended. When \<^verbatim>\<open>stop()\<close> is called on a running logger, the shutdown record it
  builds has the body \<^verbatim>\<open>Notebook logger stopped\<close> and, under \<^verbatim>\<open>total_cells\<close>, the
  logger's \<^verbatim>\<open>cell_count\<close>: the counter that \<^verbatim>\<open>_pre_run_cell\<close> increments by one and that
  accepting a record leaves unchanged, through \<^verbatim>\<open>_log\<close> for any entry and through
  \<^verbatim>\<open>log\<close> for any call that binds (a keyword named \<^verbatim>\<open>self\<close>, \<^verbatim>\<open>level\<close> or
  \<^verbatim>\<open>message\<close> makes the call raise \<open>TypeError\<close>, and no record is accepted). The
  shutdown record is queued unless the queue is full.
\<close>

theorem shutdown_record:
  assumes "running self"
  shows "(\<exists>self' g'. stop_begin th self g = Inr (self', g')
      \<and> getitem (heap g' (next_addr g)) ''body'' = Some (PStr ''Notebook logger stopped'')
      \<and> getitem (heap g' (next_addr g)) ''total_cells'' = Some (PInt (cell_count self))
      \<and> (\<not> full (log_queue self)
            \<longrightarrow> items (log_queue self') = items (log_queue self) @ [next_addr g]))
    \<and> (\<exists>self' g'. priv_pre_run_cell th info self g = Inr (self', g')
      \<and> cell_count self' = cell_count self + 1)
    \<and> (\<exists>self' g'. priv_log th a self g = Inr (self', g')
      \<and> cell_count self' = cell_count self)
    \<and> (reserved_keywords kw = [] \<longrightarrow>
         (\<exists>self' g'. log upper th level message kw self g = Inr (self', g')
            \<and> cell_count self' = cell_count self))
    \<and> (reserved_keywords kw \<noteq> [] \<longrightarrow> log upper th level message kw self g = Inl TypeError)"
proof (intro conjI impI)
  obtain g' where sb: "stop_begin th self g =
           Inr (self\<lparr>log_queue :=
                  (if full (log_queue self) then log_queue self
                   else (log_queue self)\<lparr>items := items (log_queue self) @ [next_addr g],
                          unfinished_tasks := Suc (unfinished_tasks (log_queue self))\<rparr>),
                  running := False\<rparr>, g')"
    and h: "heap g' = (heap g)(next_addr g := stamp self (clock g (Suc (ticks g))) th
               [(''severity_text'', PStr ''INFO''),
                (''body'', PStr ''Notebook logger stopped''),
                (''total_cells'', PInt (cell_count self)),
                (''timestamp'', PStr (clock g (ticks g) @ ''Z''))])"
    using stop_begin_running [OF assms, of th g] by blast
  show "\<exists>self' g'. stop_begin th self g = Inr (self', g')
      \<and> getitem (heap g' (next_addr g)) ''body'' = Some (PStr ''Notebook logger stopped'')
      \<and> getitem (heap g' (next_addr g)) ''total_cells'' = Some (PInt (cell_count self))
      \<and> (\<not> full (log_queue self)
            \<longrightarrow> items (log_queue self') = items (log_queue self) @ [next_addr g])"
    unfolding sb by (simp add: h getitem_stamp_other) (simp add: getitem_def)
  show "\<exists>self' g'. priv_pre_run_cell th info self g = Inr (self', g')
      \<and> cell_count self' = cell_count self + 1"
    by (rule pre_run_cell_count)
  show "\<exists>self' g'. priv_log th a self g = Inr (self', g')
      \<and> cell_count self' = cell_count self"
    unfolding priv_log_running [OF assms] by simp
next
  assume binds: "reserved_keywords kw = []"
  show "\<exists>self' g'. log upper th level message kw self g = Inr (self', g')
      \<and> cell_count self' = cell_count self"
    unfolding log_running [OF assms binds] by simp
next
  assume "reserved_keywords kw \<noteq> []"
  then show "log upper th level message kw self g = Inl TypeError"
    by (rule log_reserved)
qed

theorem shutdown_record_witness:
  "running (fst logged_hello) \<and> \<not> full (log_queue (fst logged_hello))
   \<and> (\<exists>self' g'. stop_begin main_thread (fst logged_hello) (snd logged_hello) = Inr (self', g')
        \<and> getitem (heap g' 2) ''total_cells'' = Some (PInt 0)
        \<and> items (log_queue self') = [0, 1, 2])
   \<and> (\<exists>self' g'. priv_pre_run_cell main_thread \<lparr>info_cell_id = PNone, raw_cell = None\<rparr>
                     (fst logged_hello) (snd logged_hello) = Inr (self', g')
        \<and> cell_count self' = 1)
   \<and> (\<exists>self' g'. priv_log main_thread 1 (fst logged_hello) (snd logged_hello) = Inr (self', g')
        \<and> cell_count self' = 0)
   \<and> reserved_keywords [] = []
   \<and> (\<exists>self' g'. log ascii_upper main_thread ''info'' ''hello'' []
                     (fst logged_hello) (snd logged_hello) = Inr (self', g')
        \<and> cell_count self' = 0)
   \<and> reserved_keywords [(''self'', PNone)] \<noteq> []
   \<and> log ascii_upper main_thread ''info'' ''hello'' [(''self'', PNone)]
        (fst logged_hello) (snd logged_hello) = Inl TypeError"
  using shutdown_record [where self = "fst logged_hello" and th = main_thread
      and g = "snd logged_hello" and info = "\<lparr>info_cell_id = PNone, raw_cell = None\<rparr>"
      and upper = ascii_upper and level = "''info''" and message = "''hello''" and kw = "[]"
      and a = 1]
    shutdown_record [where self = "fst logged_hello" and th = main_thread
      and g = "snd logged_hello" and info = "\<lparr>info_cell_id = PNone, raw_cell = None\<rparr>"
      and upper = ascii_upper and level = "''info''" and message = "''hello''"
      and kw = "[(''self'', PNone)]" and a = 1]
    logged_hello_facts(1)
  by (auto simp add: logged_hello_facts full_def reserved_keywords_def)

subsection \<open>\<^verbatim>\<open>start_logging\<close> takes the path from the environment\<close>

text \<open>
  C10. \<^verbatim>\<open>start_logging\<close> does not depend on its \<^verbatim>\<open>log_file\<close> argument. When
  \<^verbatim>\<open>LIVE_LOGS_FILE_PATH\<close> is unset or empty it returns \<^verbatim>\<open>None\<close>, spawns no thread and
  leaves the singleton as it was: absent if it was absent, and otherwise the same logger,
  changed at most in its queue (by the message printed, when the stream is captured). When
  the variable is set, there is no singleton and the keyword arguments are ones the
  constructor accepts, the logger created and returned has the variable's value as its
  \<^verbatim>\<open>log_file\<close> and is started.
\<close>

theorem start_logging_env:
  "start_logging th lf kw inst g = start_logging th lf' kw inst g
   \<and> (getenv g LIVE_LOGS_FILE_PATH [] = [] \<longrightarrow>
        (\<exists>inst' g'. start_logging th lf kw inst g = Inr (None, inst', g')
           \<and> threads g' = threads g
           \<and> (inst = None \<longrightarrow> inst' = None)
           \<and> (\<forall>l. inst = Some l \<longrightarrow> (\<exists>l'. inst' = Some l' \<and> queue_only l l'))))
   \<and> (getenv g LIVE_LOGS_FILE_PATH [] \<noteq> [] \<and> kw_other kw = [] \<longrightarrow>
        (\<exists>l' g'. start_logging th lf kw None g = Inr (Some l', Some l', g')
           \<and> log_file l' = getenv g LIVE_LOGS_FILE_PATH []
           \<and> running l' \<and> threads g' = threads g @ [Spawned]))"
proof (intro conjI impI)
  show "start_logging th lf kw inst g = start_logging th lf' kw inst g"
    by (simp add: start_logging_def)
next
  assume "getenv g LIVE_LOGS_FILE_PATH [] = []"
  then show "\<exists>inst' g'. start_logging th lf kw inst g = Inr (None, inst', g')
           \<and> threads g' = threads g
           \<and> (inst = None \<longrightarrow> inst' = None)
           \<and> (\<forall>l. inst = Some l \<longrightarrow> (\<exists>l'. inst' = Some l' \<and> queue_only l l'))"
    by (rule start_logging_unset)
next
  assume "getenv g LIVE_LOGS_FILE_PATH [] \<noteq> [] \<and> kw_other kw = []"
  then show "\<exists>l' g'. start_logging th lf kw None g = Inr (Some l', Some l', g')
           \<and> log_file l' = getenv g LIVE_LOGS_FILE_PATH []
           \<and> running l' \<and> threads g' = threads g @ [Spawned]"
    using start_logging_creates [of g "getenv g LIVE_LOGS_FILE_PATH []" kw th lf] by simp
qed

theorem start_logging_env_witness:
  "getenv boot LIVE_LOGS_FILE_PATH [] = []
   \<and> (\<exists>g'. start_logging main_thread ''test_basic.log'' no_kwargs None boot = Inr (None, None, g')
         \<and> threads g' = [])
   \<and> getenv (snd started) LIVE_LOGS_FILE_PATH [] = []
   \<and> (\<exists>l' g'. start_logging main_thread ''test_basic.log'' no_kwargs (Some (fst started)) (snd started)
                  = Inr (None, Some l', g')
         \<and> queue_only (fst started) l' \<and> threads g' = [Spawned])
   \<and> getenv env_boot LIVE_LOGS_FILE_PATH [] \<noteq> [] \<and> kw_other no_kwargs = []
   \<and> (\<exists>l' g'. start_logging main_thread ''test_basic.log'' no_kwargs None env_boot
                  = Inr (Some l', Some l', g')
         \<and> log_file l' = ''/tmp/live.log'' \<and> running l' \<and> threads g' = [Spawned])
   \<and> start_logging main_thread ''test_basic.log'' no_kwargs None env_boot
       = start_logging main_thread ''notebook.log'' no_kwargs None env_boot"
proof -
  have d: "start_logging main_thread ''test_basic.log'' no_kwargs None env_boot
       = start_logging main_thread ''notebook.log'' no_kwargs None env_boot"
    using start_logging_env [of main_thread "''test_basic.log''" no_kwargs None env_boot
      "''notebook.log''"]
    by (rule conjunct1)
  have a: "\<exists>g'. start_logging main_thread ''test_basic.log'' no_kwargs None boot = Inr (None, None, g')
         \<and> threads g' = []"
    using start_logging_env [of main_thread "''test_basic.log''" no_kwargs None boot "''test_basic.log''"]
    by (auto simp add: getenv_examples example_threads)
  have b: "\<exists>l' g'. start_logging main_thread ''test_basic.log'' no_kwargs (Some (fst started)) (snd started)
                  = Inr (None, Some l', g')
         \<and> queue_only (fst started) l' \<and> threads g' = [Spawned]"
    using start_logging_env [of main_thread "''test_basic.log''" no_kwargs "Some (fst started)"
      "snd started" "''test_basic.log''"]
    by (auto simp add: getenv_examples started_globals)
  have k: "kw_other no_kwargs = []" by (simp add: no_kwargs_def)
  have c: "\<exists>l' g'. start_logging main_thread ''test_basic.log'' no_kwargs None env_boot
                  = Inr (Some l', Some l', g')
         \<and> log_file l' = ''/tmp/live.log'' \<and> running l' \<and> threads g' = [Spawned]"
    using start_logging_env [of main_thread "''test_basic.log''" no_kwargs None env_boot "''test_basic.log''"] k
    by (auto simp add: getenv_examples example_threads)
  show ?thesis using a b c d k by (simp add: getenv_examples)
qed

subsection \<open>Errors in the writer's loop\<close>

text \<open>
  C8, as stated, fails: the writer reports nothing. After a pass in which \<^verbatim>\<open>write\<close>
  fails, the thread is still in its loop and the entry is gone from the queue, but neither
  original stream has received anything and the file is unchanged.
\<close>

theorem writer_survives_error_counterexample:
  "threads opened = [Looping []]
   \<and> items (log_queue (fst logged_hello)) = [0, 1]
   \<and> received (dev_err opened) = []
   \<and> threads (snd failed_pass) = [Looping []]
   \<and> items (log_queue (fst failed_pass)) = [1]
   \<and> received (dev_err (snd failed_pass)) = []
   \<and> dev_out (snd failed_pass) = dev_out opened
   \<and> disk (snd failed_pass) ''app.log'' = []"
  by (simp add: failed_pass_eq opened_eq logged_hello_facts logged_hello_globals received_def)


text \<open>
  C8, amended. An error raised while serialising, writing or flushing one record never ends
  the writer: the exception is swallowed without a word to either original stream, nothing
  reaches the file in that pass, the record is removed from the queue, and the thread stays
  in its loop, so that its next pass takes the next record and, when that one is written and
  flushed, appends its line to the file.
\<close>

theorem writer_survives_error:
  assumes "i < length (threads g)" and "threads g ! i = Looping buf"
    and "items (log_queue self) = a # rest"
    and "outcome \<noteq> IO_ok \<or> dumps (heap g a) = None"
  shows "\<exists>self' g' buf'. writer_pass dumps outcome i self g = (self', g')
     \<and> threads g' ! i = Looping buf' \<and> length (threads g') = length (threads g)
     \<and> dev_out g' = dev_out g \<and> dev_err g' = dev_err g \<and> disk g' = disk g
     \<and> items (log_queue self') = rest
     \<and> (\<forall>b rest' line. rest = b # rest' \<and> dumps (heap g b) = Some line \<longrightarrow>
          (\<exists>self'' g''. writer_pass dumps IO_ok i self' g' = (self'', g'')
             \<and> disk g'' (log_file self) = disk g (log_file self) @ buf' @ line @ nl
             \<and> threads g'' ! i = Looping []
             \<and> items (log_queue self'') = rest'))"
proof -
  obtain buf' where wp: "writer_pass dumps outcome i self g
           = (self\<lparr>log_queue := (log_queue self)\<lparr>items := rest\<rparr>\<rparr>,
              g\<lparr>threads := (threads g)[i := Looping buf']\<rparr>)"
    using writer_pass_failure [of i g buf self a rest outcome dumps] assms by blast
  let ?self' = "self\<lparr>log_queue := (log_queue self)\<lparr>items := rest\<rparr>\<rparr>"
  let ?g' = "g\<lparr>threads := (threads g)[i := Looping buf']\<rparr>"
  have th': "i < length (threads ?g')" "threads ?g' ! i = Looping buf'"
    using assms(1) by simp_all
  have nxt: "\<exists>self'' g''. writer_pass dumps IO_ok i ?self' ?g' = (self'', g'')
             \<and> disk g'' (log_file self) = disk g (log_file self) @ buf' @ line @ nl
             \<and> threads g'' ! i = Looping []
             \<and> items (log_queue self'') = rest'"
    if "rest = b # rest'" "dumps (heap g b) = Some line" for b rest' line
  proof -
    have "items (log_queue ?self') = b # rest'" "dumps (heap ?g' b) = Some line"
      using that by simp_all
    with th' writer_pass_ok [of i ?g' buf' ?self' b rest' dumps line] show ?thesis
      using assms(1) by simp
  qed
  show ?thesis
    unfolding wp using assms(1) nxt by (intro exI [of _ ?self'] exI [of _ ?g'] exI [of _ buf']) simp
qed

theorem writer_survives_error_witness:
  "(0::nat) < length (threads opened) \<and> threads opened ! 0 = Looping []
   \<and> items (log_queue (fst logged_hello)) = [0, 1] \<and> Write_fails \<noteq> IO_ok
   \<and> plain_dumps (heap opened 1) = Some (the (plain_dumps (heap opened 1)))
   \<and> (\<exists>self' g'. writer_pass plain_dumps Write_fails 0 (fst logged_hello) opened = (self', g')
        \<and> threads g' ! 0 = Looping []
        \<and> dev_err g' = dev_err opened \<and> disk g' = disk opened
        \<and> items (log_queue self') = [1]
        \<and> (\<exists>self'' g''. writer_pass plain_dumps IO_ok 0 self' g' = (self'', g'')
              \<and> disk g'' ''app.log'' = the (plain_dumps (heap opened 1)) @ nl
              \<and> threads g'' ! 0 = Looping []
              \<and> items (log_queue self'') = []))"
proof -
  have h: "(0::nat) < length (threads opened)" "threads opened ! 0 = Looping []"
    "items (log_queue (fst logged_hello)) = [0, 1]"
    "Write_fails \<noteq> IO_ok \<or> plain_dumps (heap opened 0) = None"
    by (simp_all add: opened_eq logged_hello_facts)
  have d: "plain_dumps (heap opened 1) = Some (the (plain_dumps (heap opened 1)))"
    by (simp add: plain_dumps_def)
  obtain self' g' buf' where w: "writer_pass plain_dumps Write_fails 0 (fst logged_hello) opened = (self', g')"
    "threads g' ! 0 = Looping buf'" "dev_err g' = dev_err opened" "disk g' = disk opened"
    "items (log_queue self') = [1]"
    and n: "\<forall>b rest' line. [1] = b # rest' \<and> plain_dumps (heap opened b) = Some line \<longrightarrow>
          (\<exists>self'' g''. writer_pass plain_dumps IO_ok 0 self' g' = (self'', g'')
             \<and> disk g'' (log_file (fst logged_hello))
                 = disk opened (log_file (fst logged_hello)) @ buf' @ line @ nl
             \<and> threads g'' ! 0 = Looping []
             \<and> items (log_queue self'') = rest')"
    using writer_survives_error [of 0 opened "[]" "fst logged_hello" 0 "[1]" Write_fails plain_dumps, OF h]
    by blast
  have "writer_pass plain_dumps Write_fails 0 (fst logged_hello) opened = failed_pass"
    by (simp add: failed_pass_def)
  then have "g' = opened"
    using w(1) by (simp add: failed_pass_eq)
  then have b: "buf' = []"
    using w(2) h(2) by simp
  from n [rule_format, of 1 "[]" "the (plain_dumps (heap opened 1))"] d
  obtain self'' g'' where "writer_pass plain_dumps IO_ok 0 self' g' = (self'', g'')"
    "disk g'' (log_file (fst logged_hello))
       = disk opened (log_file (fst logged_hello)) @ buf' @ the (plain_dumps (heap opened 1)) @ nl"
    "threads g'' ! 0 = Looping []" "items (log_queue self'') = []"
    by auto
  then show ?thesis
    using h d w b by (auto simp add: logged_hello_globals opened_eq)
qed

subsection \<open>What \<^verbatim>\<open>stop()\<close> waits for\<close>




end
